theory Spec2Isabelle
  imports Main
begin

text \<open>
  A model of the study-chat client: the title of a conversation (App), the sign-up adapter,
  the chat component with its attachments, and the voice assistant with its transcript,
  playback cursor and teardown. Component state is a record that each handler takes and
  returns; a thrown error is a value; the services outside the program are parameters.
\<close>

section \<open>JavaScript strings\<close>

text \<open>
  A JavaScript string is a sequence of UTF-16 code units. The regular expressions of the
  sources carry no \<open>u\<close> flag, so they work on code units too. \<open>lit\<close> embeds an ASCII
  literal; the horizontal ellipsis of the title is the code unit 8230 (U+2026).
\<close>

type_synonym jsstring = "nat list"

definition lit :: "string \<Rightarrow> jsstring" where
  "lit s = map of_char s"

text \<open>
  The class \<open>\s\<close> of a regular expression and the characters removed by
  \<open>String.prototype.trim\<close> are the same set: WhiteSpace and LineTerminator of ECMAScript.
\<close>

definition isWhiteSpace :: "nat \<Rightarrow> bool" where
  "isWhiteSpace c \<longleftrightarrow>
     c \<in> {9, 10, 11, 12, 13, 32, 160, 5760, 8232, 8233, 8239, 8287, 12288, 65279}
     \<or> (8192 \<le> c \<and> c \<le> 8202)"

text \<open>\<open>s.replace(/\s+/g, ' ')\<close>: every maximal run of white space becomes one space.\<close>

function collapseWhiteSpace :: "jsstring \<Rightarrow> jsstring" where
  "collapseWhiteSpace [] = []"
| "collapseWhiteSpace (c # cs) =
     (if isWhiteSpace c then 32 # collapseWhiteSpace (dropWhile isWhiteSpace cs)
      else c # collapseWhiteSpace cs)"
  by pat_completeness auto
termination
  by (relation "measure length") (auto simp: length_dropWhile_le le_imp_less_Suc)

definition trim :: "jsstring \<Rightarrow> jsstring" where
  "trim s = rev (dropWhile isWhiteSpace (rev (dropWhile isWhiteSpace s)))"

text \<open>\<open>s.split(sep)\<close> for a separator of one code unit; \<open>''.split(' ')\<close> is \<open>['']\<close>.\<close>

fun split :: "nat \<Rightarrow> jsstring \<Rightarrow> jsstring list" where
  "split sep [] = [[]]"
| "split sep (c # cs) =
     (if c = sep then [] # split sep cs
      else (case split sep cs of [] \<Rightarrow> [[c]] | w # ws \<Rightarrow> (c # w) # ws))"

fun join :: "jsstring \<Rightarrow> jsstring list \<Rightarrow> jsstring" where
  "join sep [] = []"
| "join sep [w] = w"
| "join sep (w # v # ws) = w @ sep @ join sep (v # ws)"

text \<open>
  \<open>toUpperCase\<close> is applied by the source to \<open>charAt(0)\<close> only, a string of at most one
  code unit. ASCII letters are mapped here; the Unicode case mapping of a code unit
  outside ASCII (which may yield several code units) is the parameter \<open>uc\<close>.
  \<open>asciiCaseMap\<close> is the mapping that leaves those code units alone.
\<close>

definition toUpperCase :: "(nat \<Rightarrow> jsstring) \<Rightarrow> jsstring \<Rightarrow> jsstring" where
  "toUpperCase uc s =
     concat (map (\<lambda>c. if c < 128 then [if 97 \<le> c \<and> c \<le> 122 then c - 32 else c]
                        else uc c) s)"

definition asciiCaseMap :: "nat \<Rightarrow> jsstring" where
  "asciiCaseMap c = [c]"

text \<open>The decimal digits of a non-negative integer, as a template literal prints it.\<close>

fun numberToString :: "nat \<Rightarrow> jsstring" where
  "numberToString n =
     (if n < 10 then [48 + n] else numberToString (n div 10) @ [48 + n mod 10])"

declare numberToString.simps [simp del]

text \<open>A thrown value: an \<open>Error\<close> instance with its message, or any other value.\<close>

datatype thrown = ErrorObject jsstring | OtherValue

section \<open>External services\<close>

text \<open>
  The auth provider, the database, object storage, the model session and the browser are
  outside the program. Each call takes the state \<open>'w\<close> of the outside world and returns
  its answer with the new world, so a result that leaves the world as it was, for every
  choice of services, has made no call.
\<close>

datatype json = JString jsstring | JOther

record AuthUser =
  user_id :: jsstring
  user_email :: "jsstring option"
  user_metadata_name :: "json option"

record auth_response =
  data_user :: "AuthUser option"
  auth_error :: "thrown option"

record File =
  file_name :: jsstring
  file_type :: jsstring
  file_size :: nat

record signed_response =
  signedUrl :: "jsstring option"
  signedError :: "thrown option"

record PersistedAttachment =
  p_name :: jsstring
  p_type :: jsstring
  p_size :: nat
  p_storagePath :: jsstring

datatype role = RoleUser | RoleModel

record message_row =
  row_user_id :: "jsstring option"
  row_role :: role
  row_content :: jsstring
  row_attachments :: "PersistedAttachment list option"

datatype attachments_column = ColNull | ColArray "PersistedAttachment list" | ColOther

record history_entry =
  entry_role :: role
  entry_content :: jsstring
  entry_attachments :: attachments_column

record select_response =
  select_data :: "history_entry list option"
  select_error :: "thrown option"

record 'w services =
  auth_signUp :: "'w \<Rightarrow> jsstring \<Rightarrow> jsstring \<Rightarrow> jsstring \<Rightarrow> auth_response \<times> 'w"
  auth_signInWithPassword :: "'w \<Rightarrow> jsstring \<Rightarrow> jsstring \<Rightarrow> auth_response \<times> 'w"
  db_profiles_upsert :: "'w \<Rightarrow> jsstring \<Rightarrow> jsstring \<Rightarrow> thrown option \<times> 'w"
  db_conversations_update :: "'w \<Rightarrow> jsstring \<Rightarrow> jsstring \<Rightarrow> 'w"
  storage_upload :: "'w \<Rightarrow> jsstring \<Rightarrow> File \<Rightarrow> thrown option \<times> 'w"
  storage_createSignedUrl :: "'w \<Rightarrow> jsstring \<Rightarrow> nat \<Rightarrow> signed_response \<times> 'w"
  db_messages_insert :: "'w \<Rightarrow> message_row \<Rightarrow> 'w"
  db_messages_select :: "'w \<Rightarrow> jsstring \<Rightarrow> select_response \<times> 'w"
  chat_sendMessage :: "'w \<Rightarrow> jsstring \<Rightarrow> (thrown + jsstring) \<times> 'w"
  revokeObjectURL :: "'w \<Rightarrow> jsstring \<Rightarrow> 'w"

section \<open>Conversation titles (App)\<close>

definition DEFAULT_CONVERSATION_TITLE :: jsstring where
  "DEFAULT_CONVERSATION_TITLE = lit ''New chat''"

record Conversation =
  conv_id :: jsstring
  title :: jsstring
  created_at :: jsstring

record StoredUser =
  su_id :: jsstring
  su_email :: jsstring
  su_name :: "jsstring option"

datatype auth_mode = Login | Signup

record app_state =
  app_user :: "StoredUser option"
  authMode :: "auth_mode option"
  isSidebarOpen :: bool
  conversations :: "Conversation list"
  activeConversationId :: "jsstring option"

definition generateTitleFromMessage :: "(nat \<Rightarrow> jsstring) \<Rightarrow> jsstring \<Rightarrow> jsstring" where
  "generateTitleFromMessage uc message =
     (let cleaned = trim (collapseWhiteSpace message) in
      if cleaned = [] then DEFAULT_CONVERSATION_TITLE
      else
        let words = join [32] (take 6 (split 32 cleaned));
            capitalized = toUpperCase uc (take 1 words) @ drop 1 words
        in capitalized @ (if length (split 32 cleaned) > 6 then [8230] else []))"

text \<open>
  \<open>updateConversationTitle\<close>: nothing happens unless the conversation is found and still
  has the default title. The update of the database row is awaited inside a \<open>try\<close> whose
  handler only logs, so it never changes the outcome.
\<close>

definition updateConversationTitle ::
  "'w services \<Rightarrow> (nat \<Rightarrow> jsstring) \<Rightarrow> jsstring \<Rightarrow> jsstring \<Rightarrow> app_state \<times> 'w \<Rightarrow> app_state \<times> 'w"
where
  "updateConversationTitle sv uc conversationId firstMessage sw =
     (case sw of (st, w) \<Rightarrow>
        (case find (\<lambda>conv. conv_id conv = conversationId) (conversations st) of
           None \<Rightarrow> (st, w)
         | Some conversation \<Rightarrow>
             if title conversation \<noteq> DEFAULT_CONVERSATION_TITLE then (st, w)
             else
               let cleanedTitle = generateTitleFromMessage uc firstMessage in
               (st\<lparr>conversations :=
                     map (\<lambda>conv. if conv_id conv = conversationId
                                  then conv\<lparr>title := cleanedTitle\<rparr> else conv)
                         (conversations st)\<rparr>,
                db_conversations_update sv w conversationId cleanedTitle)))"

text \<open>The callback \<open>onFirstUserMessage\<close> that App hands to the chat component.\<close>

definition onFirstUserMessage ::
  "'w services \<Rightarrow> (nat \<Rightarrow> jsstring) \<Rightarrow> jsstring \<Rightarrow> app_state \<times> 'w \<Rightarrow> app_state \<times> 'w"
where
  "onFirstUserMessage sv uc content sw =
     (case activeConversationId (fst sw) of
        None \<Rightarrow> sw
      | Some a \<Rightarrow> if a = [] then sw else updateConversationTitle sv uc a content sw)"

text \<open>
  Services for concrete runs: the world is the list of calls made so far. The auth
  provider answers \<open>resp\<close>, the message table holds \<open>entries\<close>, every upload succeeds, and
  signing a path fails exactly for the paths listed in \<open>bad\<close>.
\<close>

datatype call =
    CallSignUp jsstring | CallSignIn jsstring | CallUpsert jsstring jsstring
  | CallTitle jsstring jsstring | CallUpload jsstring | CallSign jsstring
  | CallInsert message_row | CallSelect jsstring | CallSend jsstring | CallRevoke jsstring

definition loggingServices ::
  "auth_response \<Rightarrow> history_entry list \<Rightarrow> jsstring list \<Rightarrow> (call list) services" where
  "loggingServices resp entries bad =
     \<lparr> auth_signUp = (\<lambda>w email password name. (resp, w @ [CallSignUp email])),
       auth_signInWithPassword = (\<lambda>w email password. (resp, w @ [CallSignIn email])),
       db_profiles_upsert = (\<lambda>w i n. (None, w @ [CallUpsert i n])),
       db_conversations_update = (\<lambda>w i t. w @ [CallTitle i t]),
       storage_upload = (\<lambda>w p f. (None, w @ [CallUpload p])),
       storage_createSignedUrl = (\<lambda>w p ttl.
         (if p \<in> set bad
          then \<lparr>signedUrl = None, signedError = Some (ErrorObject (lit ''Object not found''))\<rparr>
          else \<lparr>signedUrl = Some (lit ''https://signed/'' @ p), signedError = None\<rparr>,
          w @ [CallSign p])),
       db_messages_insert = (\<lambda>w r. w @ [CallInsert r]),
       db_messages_select = (\<lambda>w u.
         (\<lparr>select_data = Some entries, select_error = None\<rparr>, w @ [CallSelect u])),
       chat_sendMessage = (\<lambda>w p. (Inr (lit ''ok''), w @ [CallSend p])),
       revokeObjectURL = (\<lambda>w u. w @ [CallRevoke u]) \<rparr>"

definition providerError :: auth_response where
  "providerError =
     \<lparr>data_user = None, auth_error = Some (ErrorObject (lit ''User already registered''))\<rparr>"

definition freshConversation :: Conversation where
  "freshConversation =
     \<lparr>conv_id = lit ''c1'', title = DEFAULT_CONVERSATION_TITLE, created_at = lit ''2025-01-01''\<rparr>"

definition freshApp :: app_state where
  "freshApp =
     \<lparr> app_user = None, authMode = Some Signup, isSidebarOpen = False,
       conversations = [freshConversation], activeConversationId = Some (lit ''c1'') \<rparr>"

definition biologyMessage :: jsstring where
  "biologyMessage = lit ''Can you help me study for my biology exam tomorrow please''"

section \<open>Authentication adapter\<close>

definition mapUser :: "AuthUser \<Rightarrow> StoredUser" where
  "mapUser u =
     \<lparr> su_id = user_id u,
       su_email = (case user_email u of None \<Rightarrow> [] | Some e \<Rightarrow> e),
       su_name = (case user_metadata_name u of Some (JString n) \<Rightarrow> Some n | _ \<Rightarrow> None) \<rparr>"

definition signUp ::
  "'w services \<Rightarrow> jsstring \<Rightarrow> jsstring \<Rightarrow> jsstring \<Rightarrow> 'w \<Rightarrow> (thrown + StoredUser) \<times> 'w"
where
  "signUp sv name email password w =
     (case auth_signUp sv w email password name of (resp, w1) \<Rightarrow>
        (case auth_error resp of
           Some e \<Rightarrow> (Inl e, w1)
         | None \<Rightarrow>
             (case data_user resp of
                None \<Rightarrow> (Inl (ErrorObject (lit ''Sign up succeeded but no user was returned.'')), w1)
              | Some u \<Rightarrow>
                  if name \<noteq> [] then
                    (case db_profiles_upsert sv w1 (user_id u) name of
                       (Some profileError, w2) \<Rightarrow> (Inl profileError, w2)
                     | (None, w2) \<Rightarrow> (Inr (mapUser u), w2))
                  else (Inr (mapUser u), w1))))"

definition signIn ::
  "'w services \<Rightarrow> jsstring \<Rightarrow> jsstring \<Rightarrow> 'w \<Rightarrow> (thrown + StoredUser) \<times> 'w"
where
  "signIn sv email password w =
     (case auth_signInWithPassword sv w email password of (resp, w1) \<Rightarrow>
        (case auth_error resp of
           Some e \<Rightarrow> (Inl e, w1)
         | None \<Rightarrow>
             (case data_user resp of
                None \<Rightarrow> (Inl (ErrorObject (lit ''Login failed. Please try again.'')), w1)
              | Some u \<Rightarrow> (Inr (mapUser u), w1))))"

text \<open>
  \<open>handleAuthenticate\<close> of App: the only place where a signed-up user becomes local
  state. The first component is the error the call rejects with, if any.
\<close>

definition handleAuthenticate ::
  "'w services \<Rightarrow> jsstring option \<Rightarrow> jsstring \<Rightarrow> jsstring \<Rightarrow> app_state \<times> 'w
     \<Rightarrow> thrown option \<times> app_state \<times> 'w"
where
  "handleAuthenticate sv name email password sw =
     (case sw of (st, w) \<Rightarrow>
        (case authMode st of
           None \<Rightarrow> (None, st, w)
         | Some Signup \<Rightarrow>
             (case name of
                None \<Rightarrow> (Some (ErrorObject
                   (lit ''Please share your name so we can personalize your study space.'')), st, w)
              | Some n \<Rightarrow>
                  if n = [] then (Some (ErrorObject
                   (lit ''Please share your name so we can personalize your study space.'')), st, w)
                  else
                    (case signUp sv n email password w of
                       (Inl e, w1) \<Rightarrow> (Some e, st, w1)
                     | (Inr signedUpUser, w1) \<Rightarrow>
                         (None, st\<lparr>app_user := Some signedUpUser, authMode := None,
                                   isSidebarOpen := False\<rparr>, w1)))
         | Some Login \<Rightarrow>
             (case signIn sv email password w of
                (Inl e, w1) \<Rightarrow> (Some e, st, w1)
              | (Inr signedInUser, w1) \<Rightarrow>
                  (None, st\<lparr>app_user := Some signedInUser, authMode := None,
                            isSidebarOpen := False\<rparr>, w1))))"

section \<open>Chat component\<close>

definition SIGNED_URL_TTL_SECONDS :: nat where
  "SIGNED_URL_TTL_SECONDS = 60 * 60 * 24"

record PendingAttachment =
  pending_file :: File
  previewUrl :: jsstring

record ChatAttachment =
  att_name :: jsstring
  att_url :: jsstring
  att_type :: jsstring
  att_size :: nat
  att_storagePath :: "jsstring option"

record ChatMessage =
  msg_role :: role
  content :: jsstring
  attachments :: "ChatAttachment list option"

record chat_props =
  hasMemory :: bool
  userName :: "jsstring option"
  userId :: "jsstring option"

text \<open>\<open>chatRef\<close> holds whether a model session is present (\<open>chatRef.current\<close> is not null).\<close>

record chat_state =
  messages :: "ChatMessage list"
  input :: jsstring
  isLoading :: bool
  isHistoryLoading :: bool
  pendingAttachments :: "PendingAttachment list"
  chatRef :: bool

text \<open>Truthiness of an optional string: present and not empty.\<close>

definition truthy :: "jsstring option \<Rightarrow> bool" where
  "truthy s = (case s of None \<Rightarrow> False | Some v \<Rightarrow> v \<noteq> [])"

definition canPersistConversation :: "chat_props \<Rightarrow> bool" where
  "canPersistConversation props \<longleftrightarrow> hasMemory props \<and> truthy (userId props)"

subsection \<open>Loading the history\<close>

text \<open>
  One attachment of a stored message: its URL is signed again; when signing reports an
  error or gives no URL the attachment is kept with the URL \<open>#\<close>.
\<close>

definition resolveAttachment ::
  "'w services \<Rightarrow> PersistedAttachment \<Rightarrow> 'w \<Rightarrow> ChatAttachment \<times> 'w"
where
  "resolveAttachment sv attachment w =
     (case storage_createSignedUrl sv w (p_storagePath attachment) SIGNED_URL_TTL_SECONDS of
        (signed, w1) \<Rightarrow>
          (if signedError signed \<noteq> None \<or> \<not> truthy (signedUrl signed) then
             \<lparr> att_name = p_name attachment, att_url = lit ''#'', att_type = p_type attachment,
               att_size = p_size attachment, att_storagePath = Some (p_storagePath attachment) \<rparr>
           else
             \<lparr> att_name = p_name attachment,
               att_url = (case signedUrl signed of Some u \<Rightarrow> u | None \<Rightarrow> []),
               att_type = p_type attachment,
               att_size = p_size attachment, att_storagePath = Some (p_storagePath attachment) \<rparr>,
           w1))"

text \<open>
  \<open>Promise.all(persisted.map(...))\<close>: the signing calls are issued in the order of the
  list and the results come back in that order.
\<close>

fun resolveAttachments ::
  "'w services \<Rightarrow> PersistedAttachment list \<Rightarrow> 'w \<Rightarrow> ChatAttachment list \<times> 'w"
where
  "resolveAttachments sv [] w = ([], w)"
| "resolveAttachments sv (a # as) w =
     (case resolveAttachment sv a w of (a', w1) \<Rightarrow>
        (case resolveAttachments sv as w1 of (as', w2) \<Rightarrow> (a' # as', w2)))"

fun resolveEntries ::
  "'w services \<Rightarrow> history_entry list \<Rightarrow> 'w \<Rightarrow> ChatMessage list \<times> 'w"
where
  "resolveEntries sv [] w = ([], w)"
| "resolveEntries sv (entry # rest) w =
     (case (case entry_attachments entry of
              ColArray persisted \<Rightarrow>
                (case resolveAttachments sv persisted w of (as', w1) \<Rightarrow> (Some as', w1))
            | _ \<Rightarrow> (None, w)) of
        (atts, w1) \<Rightarrow>
          (case resolveEntries sv rest w1 of (ms, w2) \<Rightarrow>
             (\<lparr> msg_role = entry_role entry, content = entry_content entry,
                attachments = atts \<rparr> # ms, w2)))"

definition fetchHistory ::
  "'w services \<Rightarrow> jsstring \<Rightarrow> 'w \<Rightarrow> (thrown + ChatMessage list) \<times> 'w"
where
  "fetchHistory sv currentUserId w =
     (case db_messages_select sv w currentUserId of (resp, w1) \<Rightarrow>
        (case select_error resp of
           Some e \<Rightarrow> (Inl e, w1)
         | None \<Rightarrow>
             (case select_data resp of
                None \<Rightarrow> (Inr [], w1)
              | Some entries \<Rightarrow>
                  (case resolveEntries sv entries w1 of (ms, w2) \<Rightarrow> (Inr ms, w2)))))"

subsection \<open>Uploading the staged attachments\<close>

definition sanitizeName :: "jsstring \<Rightarrow> jsstring" where
  "sanitizeName n =
     map (\<lambda>c. if (97 \<le> c \<and> c \<le> 122) \<or> (65 \<le> c \<and> c \<le> 90) \<or> (48 \<le> c \<and> c \<le> 57)
                  \<or> c = 46 \<or> c = 45 then c else 95) n"

definition storagePathOf :: "jsstring \<Rightarrow> nat \<Rightarrow> nat \<Rightarrow> jsstring \<Rightarrow> jsstring" where
  "storagePathOf uid timestamp index n =
     uid @ lit ''/'' @ numberToString timestamp @ lit ''-'' @ numberToString index
       @ lit ''-'' @ sanitizeName n"

definition persistedOf :: "PendingAttachment \<Rightarrow> jsstring \<Rightarrow> PersistedAttachment" where
  "persistedOf pending storagePath =
     \<lparr> p_name = file_name (pending_file pending), p_type = file_type (pending_file pending),
       p_size = file_size (pending_file pending), p_storagePath = storagePath \<rparr>"

definition displayOf :: "PendingAttachment \<Rightarrow> jsstring \<Rightarrow> jsstring \<Rightarrow> ChatAttachment" where
  "displayOf pending storagePath u =
     \<lparr> att_name = file_name (pending_file pending), att_url = u, att_type = file_type (pending_file pending),
       att_size = file_size (pending_file pending), att_storagePath = Some storagePath \<rparr>"

text \<open>
  The body of the \<open>for\<close> loop of \<open>uploadAttachments\<close> for the attachment at \<open>index\<close>:
  upload, then sign. \<open>Inl\<close> is the error thrown, \<open>Inr\<close> the pair pushed on the two lists.
\<close>

definition uploadOne ::
  "'w services \<Rightarrow> jsstring \<Rightarrow> nat \<Rightarrow> nat \<Rightarrow> PendingAttachment \<Rightarrow> 'w
     \<Rightarrow> (thrown + PersistedAttachment \<times> ChatAttachment) \<times> 'w"
where
  "uploadOne sv uid timestamp index pending w =
     (let storagePath = storagePathOf uid timestamp index (file_name (pending_file pending)) in
      case storage_upload sv w storagePath (pending_file pending) of
        (Some uploadError, w1) \<Rightarrow> (Inl uploadError, w1)
      | (None, w1) \<Rightarrow>
          (case storage_createSignedUrl sv w1 storagePath SIGNED_URL_TTL_SECONDS of
             (signed, w2) \<Rightarrow>
               (case signedError signed of
                  Some e \<Rightarrow> (Inl e, w2)
                | None \<Rightarrow>
                    (case signedUrl signed of
                       None \<Rightarrow> (Inl (ErrorObject
                          (lit ''Failed to generate download link for an attachment.'')), w2)
                     | Some u \<Rightarrow>
                         if u = [] then (Inl (ErrorObject
                          (lit ''Failed to generate download link for an attachment.'')), w2)
                         else (Inr (persistedOf pending storagePath,
                                    displayOf pending storagePath u), w2)))))"

fun uploadLoop ::
  "'w services \<Rightarrow> jsstring \<Rightarrow> nat \<Rightarrow> nat \<Rightarrow> PendingAttachment list
     \<Rightarrow> PersistedAttachment list \<Rightarrow> ChatAttachment list \<Rightarrow> 'w
     \<Rightarrow> (thrown + PersistedAttachment list \<times> ChatAttachment list) \<times> 'w"
where
  "uploadLoop sv uid timestamp index [] persisted display w = (Inr (persisted, display), w)"
| "uploadLoop sv uid timestamp index (pending # rest) persisted display w =
     (case uploadOne sv uid timestamp index pending w of
        (Inl e, w1) \<Rightarrow> (Inl e, w1)
      | (Inr (p, d), w1) \<Rightarrow>
          uploadLoop sv uid timestamp (index + 1) rest (persisted @ [p]) (display @ [d]) w1)"

definition uploadAttachments ::
  "'w services \<Rightarrow> chat_props \<Rightarrow> nat \<Rightarrow> chat_state \<times> 'w
     \<Rightarrow> (thrown + PersistedAttachment list \<times> ChatAttachment list) \<times> chat_state \<times> 'w"
where
  "uploadAttachments sv props timestamp sw =
     (case sw of (st, w) \<Rightarrow>
        (case userId props of
           None \<Rightarrow> (Inl (ErrorObject (lit ''Please sign in to share files.'')), st, w)
         | Some uid \<Rightarrow>
             if uid = [] then (Inl (ErrorObject (lit ''Please sign in to share files.'')), st, w)
             else
               (case uploadLoop sv uid timestamp 0 (pendingAttachments st) [] [] w of
                  (Inl e, w1) \<Rightarrow> (Inl e, st, w1)
                | (Inr r, w1) \<Rightarrow>
                    (Inr r, st\<lparr>pendingAttachments := []\<rparr>,
                     foldl (revokeObjectURL sv) w1 (map previewUrl (pendingAttachments st))))))"

subsection \<open>Sending a message\<close>

text \<open>\<open>Math.round(size / 1024)\<close> of a byte count is \<open>(size + 512) div 1024\<close>.\<close>

definition attachmentSummary :: "ChatAttachment list \<Rightarrow> jsstring" where
  "attachmentSummary atts =
     join [10] (map (\<lambda>att. lit ''- '' @ att_name att @ lit '' (''
                          @ numberToString ((att_size att + 512) div 1024) @ lit '' KB)'') atts)"

definition promptOf :: "jsstring \<Rightarrow> ChatAttachment list option \<Rightarrow> jsstring" where
  "promptOf trimmedInput attachmentsForDisplay =
     (if trimmedInput \<noteq> [] then trimmedInput else lit ''Review the files I just shared.'')
     @ (case attachmentsForDisplay of
          None \<Rightarrow> []
        | Some atts \<Rightarrow>
            if attachmentSummary atts \<noteq> []
            then [10, 10] @ lit ''Attachments:'' @ [10] @ attachmentSummary atts else [])"

text \<open>
  The \<open>try\<close> block of \<open>handleSendMessage\<close>; the first component is the error it throws,
  if any. The inserts into the message table are awaited and their result is ignored.
\<close>

definition sendTry ::
  "'w services \<Rightarrow> chat_props \<Rightarrow> nat \<Rightarrow> jsstring \<Rightarrow> chat_state \<times> 'w
     \<Rightarrow> thrown option \<times> chat_state \<times> 'w"
where
  "sendTry sv props timestamp trimmedInput sw =
     (case (if pendingAttachments (fst sw) \<noteq> [] then
              (if \<not> canPersistConversation props then
                 (Inl (ErrorObject
                    (lit ''Please sign in to upload files and keep them in your chat history.'')),
                  sw)
               else
                 (case uploadAttachments sv props timestamp sw of
                    (Inl e, sw1) \<Rightarrow> (Inl e, sw1)
                  | (Inr (persisted, display), sw1) \<Rightarrow> (Inr (Some display, Some persisted), sw1)))
            else (Inr (None, None), sw)) of
        (Inl e, st1, w1) \<Rightarrow> (Some e, st1, w1)
      | (Inr (attachmentsForDisplay, attachmentsForStorage), st1, w1) \<Rightarrow>
          (let userMessage =
                 \<lparr> msg_role = RoleUser,
                   content = (if trimmedInput \<noteq> [] then trimmedInput
                              else lit ''Shared attachments.''),
                   attachments = attachmentsForDisplay \<rparr>;
               st2 = st1\<lparr>messages := messages st1 @ [userMessage], input := []\<rparr>;
               w2 = (if canPersistConversation props then
                       db_messages_insert sv w1
                         \<lparr> row_user_id = userId props, row_role = RoleUser,
                           row_content = content userMessage,
                           row_attachments = attachmentsForStorage \<rparr>
                     else w1)
           in case chat_sendMessage sv w2 (promptOf trimmedInput attachmentsForDisplay) of
                (Inl e, w3) \<Rightarrow> (Some e, st2, w3)
              | (Inr text, w3) \<Rightarrow>
                  (let assistantMessage =
                         \<lparr> msg_role = RoleModel, content = text, attachments = None \<rparr>;
                       st3 = st2\<lparr>messages := messages st2 @ [assistantMessage]\<rparr>;
                       w4 = (if canPersistConversation props then
                               db_messages_insert sv w3
                                 \<lparr> row_user_id = userId props, row_role = RoleModel,
                                   row_content = text, row_attachments = None \<rparr>
                             else w3)
                   in (None, st3, w4))))"

definition errorMessageOf :: "thrown \<Rightarrow> ChatMessage" where
  "errorMessageOf e =
     \<lparr> msg_role = RoleModel,
       content = (case e of
                    ErrorObject m \<Rightarrow> m
                  | OtherValue \<Rightarrow> lit ''I'' @ [39] @ lit ''m having trouble responding right now. Please try again later.''),
       attachments = None \<rparr>"

definition handleSendMessage ::
  "'w services \<Rightarrow> chat_props \<Rightarrow> nat \<Rightarrow> chat_state \<times> 'w \<Rightarrow> chat_state \<times> 'w"
where
  "handleSendMessage sv props timestamp sw =
     (let trimmedInput = trim (input (fst sw)) in
      if trimmedInput = [] \<and> pendingAttachments (fst sw) = [] then sw
      else if isLoading (fst sw) \<or> \<not> chatRef (fst sw) then sw
      else
        (case sendTry sv props timestamp trimmedInput ((fst sw)\<lparr>isLoading := True\<rparr>, snd sw) of
           (None, st1, w1) \<Rightarrow> (st1\<lparr>isLoading := False\<rparr>, w1)
         | (Some e, st1, w1) \<Rightarrow>
             (st1\<lparr>messages := messages st1 @ [errorMessageOf e], isLoading := False\<rparr>, w1)))"

section \<open>Voice assistant\<close>

datatype SessionStatus = IDLE | CONNECTING | LISTENING | ERROR | CLOSED

record Turn =
  user :: jsstring
  model :: jsstring
  isFinal :: bool

text \<open>
  A scheduled \<open>AudioBufferSourceNode\<close>: the time given to \<open>start\<close> and the duration of
  its buffer. Times are values of any linearly ordered type with an addition, so nothing
  below depends on how the sum of two times is rounded.
\<close>

record 't AudioSource =
  startAt :: 't
  duration :: 't

record FunctionCall =
  fc_id :: jsstring
  fc_name :: jsstring
  arg_on :: bool
  arg_color :: "jsstring option"

record ToolResponse =
  resp_id :: jsstring
  resp_name :: jsstring
  resp_result :: jsstring

record ServerContent =
  inputTranscription :: "jsstring option"
  outputTranscription :: "jsstring option"
  audioData :: "jsstring option"
  turnComplete :: bool

record LiveServerMessage =
  serverContent :: "ServerContent option"
  toolCall :: "FunctionCall list option"

text \<open>
  The function that a call of \<open>setTranscriptions\<close> passes to React. React keeps these
  functions in a queue and calls them in order, each on the result of the one before.
\<close>

datatype updater = InputUpdater | OutputUpdater | TurnCompleteUpdater

text \<open>
  One delivery of \<open>onmessage\<close>: the message, the reading of \<open>outputCtx.currentTime\<close>, the
  duration of the buffer that \<open>decodeAudioData\<close> resolves to (\<open>None\<close> when it rejects),
  and for each call of \<open>setTranscriptions\<close> in the handler whether React runs its queue
  at that call (it may, when nothing is pending) or leaves it for the next render.
\<close>

record 't event =
  message :: LiveServerMessage
  currentTime :: 't
  decodedDuration :: "'t option"
  runsAtCall :: "updater \<Rightarrow> bool"

text \<open>
  \<open>transcriptions\<close> is the state React has committed, the one that is displayed;
  \<open>pendingUpdaters\<close> is the queue of updaters that React has not run yet.
\<close>

record 't voice_state =
  status :: SessionStatus
  transcriptions :: "Turn list"
  pendingUpdaters :: "updater list"
  notifications :: "jsstring list"
  sessionRef :: "nat option"
  inputAudioContextRef :: "nat option"
  outputAudioContextRef :: "nat option"
  audioStreamRef :: "nat list option"
  processorRef :: "nat option"
  nextStartTimeRef :: 't
  audioSourcesRef :: "'t AudioSource list"
  currentInputTranscriptionRef :: jsstring
  currentOutputTranscriptionRef :: jsstring

text \<open>
  The bodies of the three updaters. \<open>cur\<close> is what the updater reads from
  \<open>currentInputTranscriptionRef.current\<close> (or the output one) when it runs.
\<close>

definition inputUpdater :: "jsstring \<Rightarrow> Turn list \<Rightarrow> Turn list" where
  "inputUpdater cur prev =
     (if prev = [] \<or> isFinal (last prev)
      then prev @ [\<lparr>user = cur, model = [], isFinal = False\<rparr>]
      else prev[length prev - 1 := (last prev)\<lparr>user := cur\<rparr>])"

definition outputUpdater :: "jsstring \<Rightarrow> Turn list \<Rightarrow> Turn list" where
  "outputUpdater cur prev =
     (if prev \<noteq> [] then prev[length prev - 1 := (last prev)\<lparr>model := cur\<rparr>] else prev)"

definition turnCompleteUpdater :: "Turn list \<Rightarrow> Turn list" where
  "turnCompleteUpdater prev =
     (if prev \<noteq> [] then prev[length prev - 1 := (last prev)\<lparr>isFinal := True\<rparr>] else prev)"

text \<open>Running one updater: it reads the accumulators as they are in \<open>st\<close>, at that time.\<close>

definition runUpdater :: "'t voice_state \<Rightarrow> Turn list \<Rightarrow> updater \<Rightarrow> Turn list" where
  "runUpdater st prev u =
     (case u of
        InputUpdater \<Rightarrow> inputUpdater (currentInputTranscriptionRef st) prev
      | OutputUpdater \<Rightarrow> outputUpdater (currentOutputTranscriptionRef st) prev
      | TurnCompleteUpdater \<Rightarrow> turnCompleteUpdater prev)"

text \<open>React runs the queue: every pending updater, in order, and commits the result.\<close>

definition render :: "'t voice_state \<Rightarrow> 't voice_state" where
  "render st =
     st\<lparr> transcriptions := foldl (runUpdater st) (transcriptions st) (pendingUpdaters st),
         pendingUpdaters := [] \<rparr>"

definition setTranscriptions :: "updater \<Rightarrow> bool \<Rightarrow> 't voice_state \<Rightarrow> 't voice_state" where
  "setTranscriptions u immediately st =
     (let st1 = st\<lparr>pendingUpdaters := pendingUpdaters st @ [u]\<rparr>
      in if immediately then render st1 else st1)"

text \<open>
  The three transcript parts of \<open>onmessage\<close>: the accumulator is extended first and the
  updater is handed to React; on turn completion the accumulators are reset right after
  the call, whether or not the queue has run.
\<close>

definition onInputTranscription ::
  "jsstring \<Rightarrow> bool \<Rightarrow> 't voice_state \<Rightarrow> 't voice_state" where
  "onInputTranscription text immediately st =
     setTranscriptions InputUpdater immediately
       (st\<lparr>currentInputTranscriptionRef := currentInputTranscriptionRef st @ text\<rparr>)"

definition onOutputTranscription ::
  "jsstring \<Rightarrow> bool \<Rightarrow> 't voice_state \<Rightarrow> 't voice_state" where
  "onOutputTranscription text immediately st =
     setTranscriptions OutputUpdater immediately
       (st\<lparr>currentOutputTranscriptionRef := currentOutputTranscriptionRef st @ text\<rparr>)"

definition onTurnComplete :: "bool \<Rightarrow> 't voice_state \<Rightarrow> 't voice_state" where
  "onTurnComplete immediately st =
     (setTranscriptions TurnCompleteUpdater immediately st)
       \<lparr>currentInputTranscriptionRef := [], currentOutputTranscriptionRef := []\<rparr>"

text \<open>
  The audio part. \<open>AudioReturn\<close>: no output context, the handler returns; \<open>AudioRejected\<close>:
  decoding failed after the cursor was clamped; \<open>AudioScheduled\<close>: the source was started
  at the cursor and the cursor moved by the duration of the buffer.
\<close>

datatype audio_outcome = AudioReturn | AudioRejected | AudioScheduled

definition scheduleAudio ::
  "'t \<Rightarrow> 't option \<Rightarrow> ('t::{linorder,plus}) voice_state \<Rightarrow> audio_outcome \<times> 't voice_state"
where
  "scheduleAudio now decoded st =
     (case outputAudioContextRef st of
        None \<Rightarrow> (AudioReturn, st)
      | Some outputCtx \<Rightarrow>
          (let st1 = st\<lparr>nextStartTimeRef := max (nextStartTimeRef st) now\<rparr> in
           case decoded of
             None \<Rightarrow> (AudioRejected, st1)
           | Some d \<Rightarrow>
               (AudioScheduled,
                st1\<lparr> audioSourcesRef :=
                       audioSourcesRef st1 @ [\<lparr>startAt = nextStartTimeRef st1, duration = d\<rparr>],
                     nextStartTimeRef := nextStartTimeRef st1 + d \<rparr>)))"

definition toolCallOne :: "FunctionCall \<Rightarrow> jsstring option \<times> ToolResponse" where
  "toolCallOne fc =
     (if fc_name fc = lit ''set_light_state'' then
        (let colorText = (if truthy (arg_color fc)
                          then lit '' to '' @ (case arg_color fc of Some c \<Rightarrow> c | None \<Rightarrow> [])
                          else []);
             stateText = (if arg_on fc then lit ''on'' else lit ''off'')
         in (Some (lit ''Function Call: Turning light '' @ stateText @ colorText @ lit ''.''),
             \<lparr>resp_id = fc_id fc, resp_name = fc_name fc,
              resp_result = lit ''Light turned '' @ stateText @ lit ''.''\<rparr>))
      else (None, \<lparr>resp_id = fc_id fc, resp_name = fc_name fc, resp_result = lit ''ok''\<rparr>))"

fun toolCalls :: "FunctionCall list \<Rightarrow> 't voice_state \<Rightarrow> 't voice_state \<times> ToolResponse list" where
  "toolCalls [] st = (st, [])"
| "toolCalls (fc # fcs) st =
     (case toolCallOne fc of (note, r) \<Rightarrow>
        (case toolCalls fcs
                (case note of None \<Rightarrow> st
                 | Some n \<Rightarrow> st\<lparr>notifications := notifications st @ [n]\<rparr>) of
           (st', rs) \<Rightarrow> (st', r # rs)))"

definition onToolCall ::
  "LiveServerMessage \<Rightarrow> 't voice_state \<Rightarrow> 't voice_state \<times> ToolResponse list" where
  "onToolCall m st = (case toolCall m of None \<Rightarrow> (st, []) | Some fcs \<Rightarrow> toolCalls fcs st)"

text \<open>
  \<open>onmessage\<close>: the new state and the tool responses sent. When the handler returns early
  or rejects in the audio part, the tool calls of the message are not reached.
\<close>

definition onmessage ::
  "('t::{linorder,plus}) event \<Rightarrow> 't voice_state \<Rightarrow> 't voice_state \<times> ToolResponse list"
where
  "onmessage ev st =
     (case serverContent (message ev) of
        None \<Rightarrow> onToolCall (message ev) st
      | Some sc \<Rightarrow>
          (let st1 = (case inputTranscription sc of
                        None \<Rightarrow> st
                      | Some t \<Rightarrow> onInputTranscription t (runsAtCall ev InputUpdater) st);
               st2 = (case outputTranscription sc of
                        None \<Rightarrow> st1
                      | Some t \<Rightarrow> onOutputTranscription t (runsAtCall ev OutputUpdater) st1);
               st3 = (if turnComplete sc
                      then onTurnComplete (runsAtCall ev TurnCompleteUpdater) st2 else st2)
           in if truthy (audioData sc) then
                (case scheduleAudio (currentTime ev) (decodedDuration ev) st3 of
                   (AudioScheduled, st4) \<Rightarrow> onToolCall (message ev) st4
                 | (_, st4) \<Rightarrow> (st4, []))
              else onToolCall (message ev) st3))"

text \<open>
  What happens to the component over time: a message is delivered, or React renders and
  runs the queue. Renders may come between any two deliveries, or not.
\<close>

datatype 't step = Deliver "'t event" | Render

definition stepOf :: "('t::{linorder,plus}) step \<Rightarrow> 't voice_state \<Rightarrow> 't voice_state" where
  "stepOf x st = (case x of Deliver ev \<Rightarrow> fst (onmessage ev st) | Render \<Rightarrow> render st)"

definition processSteps ::
  "('t::{linorder,plus}) voice_state \<Rightarrow> 't step list \<Rightarrow> 't voice_state" where
  "processSteps st steps = foldl (\<lambda>s x. stepOf x s) st steps"

subsection \<open>Teardown\<close>

text \<open>
  The calls \<open>stopSession\<close> makes on its resources. \<open>perform\<close> is the outside world: it
  answers each call with the error the call throws, if any.
\<close>

datatype 't resource_op =
    SessionClose nat | TrackStop nat | ProcessorDisconnect nat | AudioContextClose nat
  | SourceStop "'t AudioSource"

fun performAll ::
  "('w \<Rightarrow> 't resource_op \<Rightarrow> thrown option \<times> 'w) \<Rightarrow> 't resource_op list \<Rightarrow> 'w
     \<Rightarrow> thrown option \<times> 'w"
where
  "performAll perform [] w = (None, w)"
| "performAll perform (op # ops) w =
     (case perform w op of
        (Some e, w1) \<Rightarrow> (Some e, w1)
      | (None, w1) \<Rightarrow> performAll perform ops w1)"

definition andThen ::
  "thrown option \<times> 's \<times> 'w \<Rightarrow> ('s \<times> 'w \<Rightarrow> thrown option \<times> 's \<times> 'w)
     \<Rightarrow> thrown option \<times> 's \<times> 'w"
where
  "andThen r k = (case r of (Some e, sw) \<Rightarrow> (Some e, sw) | (None, sw) \<Rightarrow> k sw)"

definition closeSession ::
  "('w \<Rightarrow> 't resource_op \<Rightarrow> thrown option \<times> 'w) \<Rightarrow> 't voice_state \<times> 'w
     \<Rightarrow> thrown option \<times> 't voice_state \<times> 'w"
where
  "closeSession perform sw =
     (case sw of (st, w) \<Rightarrow>
        (case sessionRef st of
           None \<Rightarrow> (None, st, w)
         | Some s \<Rightarrow>
             (case perform w (SessionClose s) of
                (Some e, w1) \<Rightarrow> (Some e, st, w1)
              | (None, w1) \<Rightarrow> (None, st\<lparr>sessionRef := None\<rparr>, w1))))"

definition stopTracks ::
  "('w \<Rightarrow> 't resource_op \<Rightarrow> thrown option \<times> 'w) \<Rightarrow> 't voice_state \<times> 'w
     \<Rightarrow> thrown option \<times> 't voice_state \<times> 'w"
where
  "stopTracks perform sw =
     (case sw of (st, w) \<Rightarrow>
        (case audioStreamRef st of
           None \<Rightarrow> (None, st, w)
         | Some tracks \<Rightarrow>
             (case performAll perform (map TrackStop tracks) w of
                (Some e, w1) \<Rightarrow> (Some e, st, w1)
              | (None, w1) \<Rightarrow> (None, st\<lparr>audioStreamRef := None\<rparr>, w1))))"

definition disconnectProcessor ::
  "('w \<Rightarrow> 't resource_op \<Rightarrow> thrown option \<times> 'w) \<Rightarrow> 't voice_state \<times> 'w
     \<Rightarrow> thrown option \<times> 't voice_state \<times> 'w"
where
  "disconnectProcessor perform sw =
     (case sw of (st, w) \<Rightarrow>
        (case processorRef st of
           None \<Rightarrow> (None, st, w)
         | Some p \<Rightarrow>
             (case perform w (ProcessorDisconnect p) of
                (Some e, w1) \<Rightarrow> (Some e, st, w1)
              | (None, w1) \<Rightarrow> (None, st\<lparr>processorRef := None\<rparr>, w1))))"

definition closeInputContext ::
  "('w \<Rightarrow> 't resource_op \<Rightarrow> thrown option \<times> 'w) \<Rightarrow> 't voice_state \<times> 'w
     \<Rightarrow> thrown option \<times> 't voice_state \<times> 'w"
where
  "closeInputContext perform sw =
     (case sw of (st, w) \<Rightarrow>
        (case inputAudioContextRef st of
           None \<Rightarrow> (None, st, w)
         | Some c \<Rightarrow>
             (case perform w (AudioContextClose c) of
                (Some e, w1) \<Rightarrow> (Some e, st, w1)
              | (None, w1) \<Rightarrow> (None, st\<lparr>inputAudioContextRef := None\<rparr>, w1))))"

definition closeOutputContext ::
  "('w \<Rightarrow> 't resource_op \<Rightarrow> thrown option \<times> 'w) \<Rightarrow> 't voice_state \<times> 'w
     \<Rightarrow> thrown option \<times> 't voice_state \<times> 'w"
where
  "closeOutputContext perform sw =
     (case sw of (st, w) \<Rightarrow>
        (case outputAudioContextRef st of
           None \<Rightarrow> (None, st, w)
         | Some c \<Rightarrow>
             (case perform w (AudioContextClose c) of
                (Some e, w1) \<Rightarrow> (Some e, st, w1)
              | (None, w1) \<Rightarrow> (None, st\<lparr>outputAudioContextRef := None\<rparr>, w1))))"

definition stopSources ::
  "('w \<Rightarrow> 't resource_op \<Rightarrow> thrown option \<times> 'w) \<Rightarrow> ('t::zero) voice_state \<times> 'w
     \<Rightarrow> thrown option \<times> 't voice_state \<times> 'w"
where
  "stopSources perform sw =
     (case sw of (st, w) \<Rightarrow>
        (case performAll perform (map SourceStop (audioSourcesRef st)) w of
           (Some e, w1) \<Rightarrow> (Some e, st, w1)
         | (None, w1) \<Rightarrow>
             (None, st\<lparr>audioSourcesRef := [], nextStartTimeRef := 0, status := IDLE\<rparr>, w1)))"

definition stopSession ::
  "('w \<Rightarrow> 't resource_op \<Rightarrow> thrown option \<times> 'w) \<Rightarrow> ('t::zero) voice_state \<times> 'w
     \<Rightarrow> thrown option \<times> 't voice_state \<times> 'w"
where
  "stopSession perform sw =
     andThen (closeSession perform sw) (\<lambda>sw1.
     andThen (stopTracks perform sw1) (\<lambda>sw2.
     andThen (disconnectProcessor perform sw2) (\<lambda>sw3.
     andThen (closeInputContext perform sw3) (\<lambda>sw4.
     andThen (closeOutputContext perform sw4) (\<lambda>sw5.
     stopSources perform sw5)))))"

text \<open>A world for concrete runs of the teardown: every call is logged and every call throws.\<close>

definition everyCallThrows ::
  "'t resource_op list \<Rightarrow> 't resource_op \<Rightarrow> thrown option \<times> 't resource_op list" where
  "everyCallThrows w op = (Some (ErrorObject (lit ''InvalidStateError'')), w @ [op])"

text \<open>The state of the component when it is mounted.\<close>

definition initialVoiceState :: "('t::zero) voice_state" where
  "initialVoiceState =
     \<lparr> status = IDLE, transcriptions = [], pendingUpdaters = [], notifications = [],
       sessionRef = None,
       inputAudioContextRef = None, outputAudioContextRef = None, audioStreamRef = None,
       processorRef = None, nextStartTimeRef = 0, audioSourcesRef = [],
       currentInputTranscriptionRef = [], currentOutputTranscriptionRef = [] \<rparr>"

text \<open>The two extreme choices of React for the calls of one handler.\<close>

definition atCall :: "updater \<Rightarrow> bool" where
  "atCall u = True"

definition atRender :: "updater \<Rightarrow> bool" where
  "atRender u = False"

text \<open>Messages that carry one field only.\<close>

definition partialInput :: "jsstring \<Rightarrow> 't \<Rightarrow> (updater \<Rightarrow> bool) \<Rightarrow> 't event" where
  "partialInput t now r =
     \<lparr> message = \<lparr> serverContent = Some \<lparr> inputTranscription = Some t, outputTranscription = None,
                                          audioData = None, turnComplete = False \<rparr>,
                   toolCall = None \<rparr>,
       currentTime = now, decodedDuration = None, runsAtCall = r \<rparr>"

definition partialOutput :: "jsstring \<Rightarrow> 't \<Rightarrow> (updater \<Rightarrow> bool) \<Rightarrow> 't event" where
  "partialOutput t now r =
     \<lparr> message = \<lparr> serverContent = Some \<lparr> inputTranscription = None, outputTranscription = Some t,
                                          audioData = None, turnComplete = False \<rparr>,
                   toolCall = None \<rparr>,
       currentTime = now, decodedDuration = None, runsAtCall = r \<rparr>"

definition turnCompleteEvent :: "'t \<Rightarrow> (updater \<Rightarrow> bool) \<Rightarrow> 't event" where
  "turnCompleteEvent now r =
     \<lparr> message = \<lparr> serverContent = Some \<lparr> inputTranscription = None, outputTranscription = None,
                                          audioData = None, turnComplete = True \<rparr>,
                   toolCall = None \<rparr>,
       currentTime = now, decodedDuration = None, runsAtCall = r \<rparr>"

definition audioChunk :: "jsstring \<Rightarrow> 't \<Rightarrow> 't \<Rightarrow> 't event" where
  "audioChunk payload now d =
     \<lparr> message = \<lparr> serverContent = Some \<lparr> inputTranscription = None, outputTranscription = None,
                                          audioData = Some payload, turnComplete = False \<rparr>,
                   toolCall = None \<rparr>,
       currentTime = now, decodedDuration = Some d, runsAtCall = atRender \<rparr>"


text \<open>Concrete data for the chat component.\<close>

definition memberProps :: chat_props where
  "memberProps = \<lparr>hasMemory = True, userName = None, userId = Some (lit ''u1'')\<rparr>"

definition notesPdf :: PendingAttachment where
  "notesPdf =
     \<lparr> pending_file = \<lparr>file_name = lit ''my notes.pdf'', file_type = lit ''application/pdf'',
                        file_size = 2048\<rparr>,
       previewUrl = lit ''blob:1'' \<rparr>"

definition cellPng :: PendingAttachment where
  "cellPng =
     \<lparr> pending_file = \<lparr>file_name = lit ''cell.png'', file_type = lit ''image/png'',
                        file_size = 700\<rparr>,
       previewUrl = lit ''blob:2'' \<rparr>"

definition stagedChat :: chat_state where
  "stagedChat =
     \<lparr> messages = [], input = lit ''see these'', isLoading = False, isHistoryLoading = False,
       pendingAttachments = [notesPdf, cellPng], chatRef = True \<rparr>"

definition blankChat :: chat_state where
  "blankChat =
     \<lparr> messages = [], input = [32, 9, 32], isLoading = False, isHistoryLoading = False,
       pendingAttachments = [], chatRef = True \<rparr>"

definition storedNotes :: PersistedAttachment where
  "storedNotes =
     \<lparr> p_name = lit ''my notes.pdf'', p_type = lit ''application/pdf'', p_size = 2048,
       p_storagePath = lit ''u1/1700-0-my_notes.pdf'' \<rparr>"

definition storedCell :: PersistedAttachment where
  "storedCell =
     \<lparr> p_name = lit ''cell.png'', p_type = lit ''image/png'', p_size = 700,
       p_storagePath = lit ''u1/1700-1-cell.png'' \<rparr>"

definition storedEntry :: history_entry where
  "storedEntry =
     \<lparr> entry_role = RoleUser, entry_content = lit ''see these'',
       entry_attachments = ColArray [storedNotes, storedCell] \<rparr>"

definition storedSlides :: PersistedAttachment where
  "storedSlides =
     \<lparr> p_name = lit ''slides.ppt'', p_type = lit ''application/vnd.ms-powerpoint'',
       p_size = 4096, p_storagePath = lit ''u1/1800-0-slides.ppt'' \<rparr>"

definition threeRows :: "history_entry list" where
  "threeRows =
     [ \<lparr> entry_role = RoleModel, entry_content = lit ''Welcome back'', entry_attachments = ColNull \<rparr>,
       storedEntry,
       \<lparr> entry_role = RoleUser, entry_content = lit ''and this'',
         entry_attachments = ColArray [storedSlides] \<rparr> ]"

text \<open>A delivery that schedules no audio: no server content, or no audio payload in it.\<close>

definition noAudio :: "'t event \<Rightarrow> bool" where
  "noAudio ev =
     (case serverContent (message ev) of None \<Rightarrow> True | Some sc \<Rightarrow> \<not> truthy (audioData sc))"

definition noAudioStep :: "'t step \<Rightarrow> bool" where
  "noAudioStep x = (case x of Deliver ev \<Rightarrow> noAudio ev | Render \<Rightarrow> True)"

text \<open>
  What the storage service answers for one file from the world \<open>w\<close>. \<open>storedAs\<close>: the
  upload reports no error and leads to a world where signing reports no error and gives
  the non-empty URL \<open>u\<close>, leaving the world \<open>w'\<close>. \<open>refusedWith\<close>: the upload reports the
  error \<open>e\<close>, or the upload succeeds and signing reports \<open>e\<close> or gives no URL; \<open>w'\<close> is the
  world the failing call left. Both read the answers of the service only.
\<close>

definition storedAs ::
  "'w services \<Rightarrow> jsstring \<Rightarrow> File \<Rightarrow> 'w \<Rightarrow> jsstring \<Rightarrow> 'w \<Rightarrow> bool" where
  "storedAs sv path f w u w' \<longleftrightarrow>
     fst (storage_upload sv w path f) = None
     \<and> signedError (fst (storage_createSignedUrl sv (snd (storage_upload sv w path f)) path
                          SIGNED_URL_TTL_SECONDS)) = None
     \<and> signedUrl (fst (storage_createSignedUrl sv (snd (storage_upload sv w path f)) path
                          SIGNED_URL_TTL_SECONDS)) = Some u
     \<and> u \<noteq> []
     \<and> snd (storage_createSignedUrl sv (snd (storage_upload sv w path f)) path
                          SIGNED_URL_TTL_SECONDS) = w'"

definition refusedWith ::
  "'w services \<Rightarrow> jsstring \<Rightarrow> File \<Rightarrow> 'w \<Rightarrow> thrown \<Rightarrow> 'w \<Rightarrow> bool" where
  "refusedWith sv path f w e w' \<longleftrightarrow>
     (case storage_upload sv w path f of
        (Some uploadError, w1) \<Rightarrow> e = uploadError \<and> w' = w1
      | (None, w1) \<Rightarrow>
          (case storage_createSignedUrl sv w1 path SIGNED_URL_TTL_SECONDS of
             (signed, w2) \<Rightarrow>
               w' = w2 \<and>
               (case signedError signed of
                  Some signError \<Rightarrow> e = signError
                | None \<Rightarrow>
                    (signedUrl signed = None \<or> signedUrl signed = Some [])
                    \<and> e = ErrorObject
                          (lit ''Failed to generate download link for an attachment.''))))"

text \<open>The stored attachments of a row of the message table, and those of a message.\<close>

definition storedAttachments :: "history_entry \<Rightarrow> PersistedAttachment list" where
  "storedAttachments entry =
     (case entry_attachments entry of ColArray ps \<Rightarrow> ps | _ \<Rightarrow> [])"

definition shownAttachments :: "ChatMessage \<Rightarrow> ChatAttachment list" where
  "shownAttachments m = (case attachments m of None \<Rightarrow> [] | Some as \<Rightarrow> as)"

text \<open>
  Signing a list of paths in order, read off the storage service alone: the answers, and
  the world after the last call.
\<close>

fun signingAnswers :: "'w services \<Rightarrow> 'w \<Rightarrow> jsstring list \<Rightarrow> signed_response list" where
  "signingAnswers sv w [] = []"
| "signingAnswers sv w (p # ps) =
     fst (storage_createSignedUrl sv w p SIGNED_URL_TTL_SECONDS)
       # signingAnswers sv (snd (storage_createSignedUrl sv w p SIGNED_URL_TTL_SECONDS)) ps"

definition worldAfterSigning :: "'w services \<Rightarrow> 'w \<Rightarrow> jsstring list \<Rightarrow> 'w" where
  "worldAfterSigning sv w ps =
     foldl (\<lambda>v p. snd (storage_createSignedUrl sv v p SIGNED_URL_TTL_SECONDS)) w ps"

text \<open>
  How a stored attachment is shown, given the answer of signing its path: with the URL
  \<open>#\<close> when the answer has an error or no URL, with the signed URL otherwise.
\<close>

definition shownAs :: "PersistedAttachment \<Rightarrow> signed_response \<Rightarrow> ChatAttachment" where
  "shownAs a signed =
     \<lparr> att_name = p_name a,
       att_url = (case signedError signed of
                    Some e \<Rightarrow> lit ''#''
                  | None \<Rightarrow> (case signedUrl signed of
                              None \<Rightarrow> lit ''#''
                            | Some u \<Rightarrow> if u = [] then lit ''#'' else u)),
       att_type = p_type a, att_size = p_size a,
       att_storagePath = Some (p_storagePath a) \<rparr>"

text \<open>The turns that are still open.\<close>

definition openTurns :: "Turn list \<Rightarrow> Turn list" where
  "openTurns ts = filter (\<lambda>t. \<not> isFinal t) ts"

section \<open>Properties of the title assignment\<close>

lemma generateTitle_biology:
  "generateTitleFromMessage uc biologyMessage = lit ''Can you help me study for'' @ [8230]"
  by (simp add: generateTitleFromMessage_def biologyMessage_def lit_def trim_def isWhiteSpace_def
      toUpperCase_def Let_def DEFAULT_CONVERSATION_TITLE_def)

lemma biology_title_not_default:
  "lit ''Can you help me study for'' @ [8230] \<noteq> DEFAULT_CONVERSATION_TITLE"
  by (simp add: lit_def DEFAULT_CONVERSATION_TITLE_def)

lemma find_map_retitle:
  "find (\<lambda>conv. conv_id conv = cid) cs = Some c \<Longrightarrow>
   find (\<lambda>conv. conv_id conv = cid)
        (map (\<lambda>conv. if conv_id conv = cid then conv\<lparr>title := t\<rparr> else conv) cs)
     = Some (c\<lparr>title := t\<rparr>)"
  by (induction cs) (auto split: if_splits)

text \<open>
  C1 (as amended). For a conversation that is active, found in the list and still holds the
  default title, the callback for the first user message with the biology message assigns
  the title made of the first six words, ``Can you help me study for'' followed by the
  ellipsis: the seventh word ``my'' is not part of it. The title is written to every
  conversation with that id and sent to the database once. Any later attempt, with any
  message, changes neither the state nor the world.
\<close>

theorem title_assignment_six_words:
  assumes "activeConversationId st = Some cid" and "cid \<noteq> []"
    and "find (\<lambda>conv. conv_id conv = cid) (conversations st) = Some c"
    and "title c = DEFAULT_CONVERSATION_TITLE"
  shows "\<exists>st' w'. onFirstUserMessage sv uc biologyMessage (st, w) = (st', w')
     \<and> find (\<lambda>conv. conv_id conv = cid) (conversations st')
          = Some (c\<lparr>title := lit ''Can you help me study for'' @ [8230]\<rparr>)
     \<and> conversations st'
          = map (\<lambda>conv. if conv_id conv = cid
                         then conv\<lparr>title := lit ''Can you help me study for'' @ [8230]\<rparr>
                         else conv) (conversations st)
     \<and> w' = db_conversations_update sv w cid (lit ''Can you help me study for'' @ [8230])
     \<and> (\<forall>m. updateConversationTitle sv uc cid m (st', w') = (st', w'))
     \<and> (\<forall>m. onFirstUserMessage sv uc m (st', w') = (st', w'))"
  using assms biology_title_not_default
  by (simp add: onFirstUserMessage_def updateConversationTitle_def generateTitle_biology
      find_map_retitle Let_def)

theorem title_assignment_six_words_witness:
  "activeConversationId freshApp = Some (lit ''c1'') \<and> lit ''c1'' \<noteq> []
   \<and> find (\<lambda>conv. conv_id conv = lit ''c1'') (conversations freshApp) = Some freshConversation
   \<and> title freshConversation = DEFAULT_CONVERSATION_TITLE
   \<and> onFirstUserMessage (loggingServices providerError [] []) asciiCaseMap biologyMessage
        (freshApp, [])
      = (freshApp\<lparr>conversations :=
            [freshConversation\<lparr>title := lit ''Can you help me study for'' @ [8230]\<rparr>]\<rparr>,
         [CallTitle (lit ''c1'') (lit ''Can you help me study for'' @ [8230])])
   \<and> onFirstUserMessage (loggingServices providerError [] []) asciiCaseMap (lit ''Another question'')
        (freshApp\<lparr>conversations :=
            [freshConversation\<lparr>title := lit ''Can you help me study for'' @ [8230]\<rparr>]\<rparr>,
         [CallTitle (lit ''c1'') (lit ''Can you help me study for'' @ [8230])])
      = (freshApp\<lparr>conversations :=
            [freshConversation\<lparr>title := lit ''Can you help me study for'' @ [8230]\<rparr>]\<rparr>,
         [CallTitle (lit ''c1'') (lit ''Can you help me study for'' @ [8230])])"
proof -
  have h1: "activeConversationId freshApp = Some (lit ''c1'')" by (simp add: freshApp_def)
  have h2: "lit ''c1'' \<noteq> []" by (simp add: lit_def)
  have h3: "find (\<lambda>conv. conv_id conv = lit ''c1'') (conversations freshApp) = Some freshConversation"
    by (simp add: freshApp_def freshConversation_def)
  have h4: "title freshConversation = DEFAULT_CONVERSATION_TITLE"
    by (simp add: freshConversation_def)
  from title_assignment_six_words [OF h1 h2 h3 h4, of "loggingServices providerError [] []" asciiCaseMap "[]"]
  obtain st' w' where
    a: "onFirstUserMessage (loggingServices providerError [] []) asciiCaseMap biologyMessage (freshApp, []) = (st', w')"
    and b: "conversations st' = map (\<lambda>conv. if conv_id conv = lit ''c1''
                         then conv\<lparr>title := lit ''Can you help me study for'' @ [8230]\<rparr>
                         else conv) (conversations freshApp)"
    and c: "w' = db_conversations_update (loggingServices providerError [] []) [] (lit ''c1'') (lit ''Can you help me study for'' @ [8230])"
    and d: "\<forall>m. onFirstUserMessage (loggingServices providerError [] []) asciiCaseMap m (st', w') = (st', w')"
    by blast
  have e: "st' = freshApp\<lparr>conversations :=
            [freshConversation\<lparr>title := lit ''Can you help me study for'' @ [8230]\<rparr>]\<rparr>"
    using a b by (auto simp: onFirstUserMessage_def updateConversationTitle_def freshApp_def
        freshConversation_def Let_def split: option.splits if_splits)
  have f: "w' = [CallTitle (lit ''c1'') (lit ''Can you help me study for'' @ [8230])]"
    using c by (simp add: loggingServices_def)
  show ?thesis using h1 h2 h3 h4 a d e f by simp
qed

text \<open>
  C1 as stated fails: the title assigned for the biology message is not
  ``Can you help me study for my'' with the ellipsis, which has seven words.
\<close>

theorem title_seven_words_counterexample:
  "map title (conversations (fst (onFirstUserMessage (loggingServices providerError [] [])
       asciiCaseMap biologyMessage (freshApp, []))))
     = [lit ''Can you help me study for'' @ [8230]]
   \<and> lit ''Can you help me study for'' @ [8230] \<noteq> lit ''Can you help me study for my'' @ [8230]"
proof
  show "map title (conversations (fst (onFirstUserMessage (loggingServices providerError [] [])
       asciiCaseMap biologyMessage (freshApp, []))))
     = [lit ''Can you help me study for'' @ [8230]]"
    by (simp add: onFirstUserMessage_def updateConversationTitle_def generateTitle_biology
        freshApp_def freshConversation_def Let_def lit_def)
  show "lit ''Can you help me study for'' @ [8230] \<noteq> lit ''Can you help me study for my'' @ [8230]"
    by (simp add: lit_def)
qed

section \<open>Properties of the chat component and of sign-up\<close>

lemma canPersist_has_userId:
  "canPersistConversation props \<Longrightarrow> \<exists>uid. userId props = Some uid \<and> uid \<noteq> []"
  by (auto simp: canPersistConversation_def truthy_def split: option.splits)

lemma storagePath_notes: "storagePathOf (lit ''u1'') 1700 0 (lit ''my notes.pdf'') = lit ''u1/1700-0-my_notes.pdf''"
  by (simp add: storagePathOf_def sanitizeName_def numberToString.simps lit_def)

lemma storagePath_cell: "storagePathOf (lit ''u1'') 1700 (Suc 0) (lit ''cell.png'') = lit ''u1/1700-1-cell.png''"
  by (simp add: storagePathOf_def sanitizeName_def numberToString.simps lit_def)

lemma lit_eq_iff: "lit a = lit b \<longleftrightarrow> a = b"
  by (simp add: lit_def inj_on_def)

lemma lit_Nil_iff: "lit a = [] \<longleftrightarrow> a = []"
  by (simp add: lit_def)

lemma loggingServices_simps:
  "auth_signUp (loggingServices resp es bad) w email password name = (resp, w @ [CallSignUp email])"
  "db_profiles_upsert (loggingServices resp es bad) w i n = (None, w @ [CallUpsert i n])"
  "db_conversations_update (loggingServices resp es bad) w i t = w @ [CallTitle i t]"
  "storage_upload (loggingServices resp es bad) w p f = (None, w @ [CallUpload p])"
  "storage_createSignedUrl (loggingServices resp es bad) w p ttl =
     (if p \<in> set bad
      then \<lparr>signedUrl = None, signedError = Some (ErrorObject (lit ''Object not found''))\<rparr>
      else \<lparr>signedUrl = Some (lit ''https://signed/'' @ p), signedError = None\<rparr>,
      w @ [CallSign p])"
  "db_messages_insert (loggingServices resp es bad) w r = w @ [CallInsert r]"
  "db_messages_select (loggingServices resp es bad) w u =
     (\<lparr>select_data = Some es, select_error = None\<rparr>, w @ [CallSelect u])"
  "chat_sendMessage (loggingServices resp es bad) w q = (Inr (lit ''ok''), w @ [CallSend q])"
  "revokeObjectURL (loggingServices resp es bad) w u = w @ [CallRevoke u]"
  by (simp_all add: loggingServices_def)

lemma upload_run_second_fails: "uploadAttachments (loggingServices providerError [] [lit ''u1/1700-1-cell.png'']) memberProps 1700
        (stagedChat, [])
      = (Inl (ErrorObject (lit ''Object not found'')), stagedChat,
         [CallUpload (lit ''u1/1700-0-my_notes.pdf''), CallSign (lit ''u1/1700-0-my_notes.pdf''),
          CallUpload (lit ''u1/1700-1-cell.png''), CallSign (lit ''u1/1700-1-cell.png'')])"
  by (simp add: uploadAttachments_def memberProps_def stagedChat_def uploadOne_def notesPdf_def
      cellPng_def storagePath_notes storagePath_cell Let_def loggingServices_simps lit_eq_iff lit_Nil_iff)

lemma upload_run_succeeds: "uploadAttachments (loggingServices providerError [] []) memberProps 1700
        (stagedChat, [])
      = (Inr ([storedNotes, storedCell],
              [\<lparr>att_name = lit ''my notes.pdf'', att_url = lit ''https://signed/'' @ lit ''u1/1700-0-my_notes.pdf'',
                att_type = lit ''application/pdf'', att_size = 2048,
                att_storagePath = Some (lit ''u1/1700-0-my_notes.pdf'')\<rparr>,
               \<lparr>att_name = lit ''cell.png'', att_url = lit ''https://signed/'' @ lit ''u1/1700-1-cell.png'',
                att_type = lit ''image/png'', att_size = 700,
                att_storagePath = Some (lit ''u1/1700-1-cell.png'')\<rparr>]),
         stagedChat\<lparr>pendingAttachments := []\<rparr>,
         [CallUpload (lit ''u1/1700-0-my_notes.pdf''), CallSign (lit ''u1/1700-0-my_notes.pdf''),
          CallUpload (lit ''u1/1700-1-cell.png''), CallSign (lit ''u1/1700-1-cell.png''),
          CallRevoke (lit ''blob:1''), CallRevoke (lit ''blob:2'')])"
  by (simp add: uploadAttachments_def memberProps_def stagedChat_def uploadOne_def notesPdf_def
      cellPng_def storagePath_notes storagePath_cell Let_def loggingServices_simps lit_eq_iff lit_Nil_iff
      storedNotes_def storedCell_def persistedOf_def displayOf_def)

lemma uploadOne_cases:
  "(\<exists>u w1. storedAs sv (storagePathOf uid ts i (file_name (pending_file x))) (pending_file x) w u w1
        \<and> uploadOne sv uid ts i x w =
            (Inr (persistedOf x (storagePathOf uid ts i (file_name (pending_file x))),
                  displayOf x (storagePathOf uid ts i (file_name (pending_file x))) u), w1))
   \<or> (\<exists>e w1. refusedWith sv (storagePathOf uid ts i (file_name (pending_file x))) (pending_file x) w e w1
        \<and> uploadOne sv uid ts i x w = (Inl e, w1))"
  by (auto simp: uploadOne_def storedAs_def refusedWith_def Let_def
      split: prod.splits option.splits)

lemma uploadLoop_chain:
  "\<exists>k ws us. k \<le> length xs \<and> length ws = Suc k \<and> length us = k \<and> ws ! 0 = w
     \<and> (\<forall>j<k. storedAs sv (storagePathOf uid ts (i + j) (file_name (pending_file (xs ! j))))
                  (pending_file (xs ! j)) (ws ! j) (us ! j) (ws ! Suc j))
     \<and> (if k = length xs
         then uploadLoop sv uid ts i xs P D w =
               (Inr (P @ map (\<lambda>j. persistedOf (xs ! j)
                                 (storagePathOf uid ts (i + j) (file_name (pending_file (xs ! j)))))
                           [0..<length xs],
                     D @ map (\<lambda>j. displayOf (xs ! j)
                                 (storagePathOf uid ts (i + j) (file_name (pending_file (xs ! j))))
                                 (us ! j))
                           [0..<length xs]),
                ws ! k)
         else \<exists>e w'. refusedWith sv (storagePathOf uid ts (i + k) (file_name (pending_file (xs ! k))))
                        (pending_file (xs ! k)) (ws ! k) e w'
                    \<and> uploadLoop sv uid ts i xs P D w = (Inl e, w'))"
proof (induction xs arbitrary: i P D w)
  case Nil
  show ?case by (intro exI[of _ 0] exI[of _ "[w]"] exI[of _ "[]"]) simp
next
  case (Cons x xs)
  let ?p = "storagePathOf uid ts i (file_name (pending_file x))"
  from uploadOne_cases[of sv uid ts i x w]
  consider (stored) u w1 where "storedAs sv ?p (pending_file x) w u w1"
      "uploadOne sv uid ts i x w = (Inr (persistedOf x ?p, displayOf x ?p u), w1)"
    | (refused) e w1 where "refusedWith sv ?p (pending_file x) w e w1"
      "uploadOne sv uid ts i x w = (Inl e, w1)"
    by blast
  then show ?case
  proof cases
    case refused
    then show ?thesis
      by (intro exI[of _ 0] exI[of _ "[w]"] exI[of _ "[]"]) auto
  next
    case stored
    from Cons.IH[where i = "i + 1" and P = "P @ [persistedOf x ?p]"
        and D = "D @ [displayOf x ?p u]" and w = w1]
    obtain k ws us where k: "k \<le> length xs" "length ws = Suc k" "length us = k" "ws ! 0 = w1"
      and chain: "\<forall>j<k. storedAs sv (storagePathOf uid ts (i + 1 + j) (file_name (pending_file (xs ! j))))
                  (pending_file (xs ! j)) (ws ! j) (us ! j) (ws ! Suc j)"
      and res: "if k = length xs
         then uploadLoop sv uid ts (i + 1) xs (P @ [persistedOf x ?p]) (D @ [displayOf x ?p u]) w1 =
               (Inr ((P @ [persistedOf x ?p]) @ map (\<lambda>j. persistedOf (xs ! j)
                                 (storagePathOf uid ts (i + 1 + j) (file_name (pending_file (xs ! j)))))
                           [0..<length xs],
                     (D @ [displayOf x ?p u]) @ map (\<lambda>j. displayOf (xs ! j)
                                 (storagePathOf uid ts (i + 1 + j) (file_name (pending_file (xs ! j))))
                                 (us ! j))
                           [0..<length xs]),
                ws ! k)
         else \<exists>e w'. refusedWith sv (storagePathOf uid ts (i + 1 + k) (file_name (pending_file (xs ! k))))
                        (pending_file (xs ! k)) (ws ! k) e w'
                    \<and> uploadLoop sv uid ts (i + 1) xs (P @ [persistedOf x ?p]) (D @ [displayOf x ?p u]) w1 = (Inl e, w')"
      by blast
    have step: "uploadLoop sv uid ts i (x # xs) P D w =
        uploadLoop sv uid ts (i + 1) xs (P @ [persistedOf x ?p]) (D @ [displayOf x ?p u]) w1"
      using stored(2) by simp
    have chain': "\<forall>j<Suc k. storedAs sv (storagePathOf uid ts (i + j) (file_name (pending_file ((x # xs) ! j))))
                  (pending_file ((x # xs) ! j)) ((w # ws) ! j) ((u # us) ! j) ((w # ws) ! Suc j)"
    proof (intro allI impI)
      fix j assume "j < Suc k"
      show "storedAs sv (storagePathOf uid ts (i + j) (file_name (pending_file ((x # xs) ! j))))
                  (pending_file ((x # xs) ! j)) ((w # ws) ! j) ((u # us) ! j) ((w # ws) ! Suc j)"
      proof (cases j)
        case 0
        with stored(1) k(4) show ?thesis by simp
      next
        case (Suc j')
        with \<open>j < Suc k\<close> chain show ?thesis by simp
      qed
    qed
    show ?thesis
    proof (intro exI[of _ "Suc k"] exI[of _ "w # ws"] exI[of _ "u # us"] conjI)
      show "if Suc k = length (x # xs)
         then uploadLoop sv uid ts i (x # xs) P D w =
               (Inr (P @ map (\<lambda>j. persistedOf ((x # xs) ! j)
                                 (storagePathOf uid ts (i + j) (file_name (pending_file ((x # xs) ! j)))))
                           [0..<length (x # xs)],
                     D @ map (\<lambda>j. displayOf ((x # xs) ! j)
                                 (storagePathOf uid ts (i + j) (file_name (pending_file ((x # xs) ! j))))
                                 ((u # us) ! j))
                           [0..<length (x # xs)]),
                (w # ws) ! Suc k)
         else \<exists>e w'. refusedWith sv (storagePathOf uid ts (i + Suc k) (file_name (pending_file ((x # xs) ! Suc k))))
                        (pending_file ((x # xs) ! Suc k)) ((w # ws) ! Suc k) e w'
                    \<and> uploadLoop sv uid ts i (x # xs) P D w = (Inl e, w')"
      proof (cases "k = length xs")
        case True
        with res have "uploadLoop sv uid ts (i + 1) xs (P @ [persistedOf x ?p]) (D @ [displayOf x ?p u]) w1 =
               (Inr ((P @ [persistedOf x ?p]) @ map (\<lambda>j. persistedOf (xs ! j)
                                 (storagePathOf uid ts (i + 1 + j) (file_name (pending_file (xs ! j)))))
                           [0..<length xs],
                     (D @ [displayOf x ?p u]) @ map (\<lambda>j. displayOf (xs ! j)
                                 (storagePathOf uid ts (i + 1 + j) (file_name (pending_file (xs ! j))))
                                 (us ! j))
                           [0..<length xs]),
                ws ! k)" by simp
        with True show ?thesis
          by (simp add: step map_upt_Suc del: upt_Suc uploadLoop.simps)
      next
        case False
        with res obtain e w' where
          "refusedWith sv (storagePathOf uid ts (i + 1 + k) (file_name (pending_file (xs ! k))))
                        (pending_file (xs ! k)) (ws ! k) e w'"
          "uploadLoop sv uid ts (i + 1) xs (P @ [persistedOf x ?p]) (D @ [displayOf x ?p u]) w1 = (Inl e, w')"
          by auto
        with False show ?thesis
          by (simp add: step del: uploadLoop.simps)
      qed
    qed (use k chain' in simp_all)
  qed
qed


lemma uploadLoop_chain0:
  "\<exists>k ws us. k \<le> length xs \<and> length ws = Suc k \<and> length us = k \<and> ws ! 0 = w
     \<and> (\<forall>j<k. storedAs sv (storagePathOf uid ts j (file_name (pending_file (xs ! j))))
                  (pending_file (xs ! j)) (ws ! j) (us ! j) (ws ! Suc j))
     \<and> (if k = length xs
         then uploadLoop sv uid ts 0 xs [] [] w =
               (Inr (map (\<lambda>j. persistedOf (xs ! j)
                                 (storagePathOf uid ts j (file_name (pending_file (xs ! j)))))
                           [0..<length xs],
                     map (\<lambda>j. displayOf (xs ! j)
                                 (storagePathOf uid ts j (file_name (pending_file (xs ! j))))
                                 (us ! j))
                           [0..<length xs]),
                ws ! k)
         else \<exists>e w'. refusedWith sv (storagePathOf uid ts k (file_name (pending_file (xs ! k))))
                        (pending_file (xs ! k)) (ws ! k) e w'
                    \<and> uploadLoop sv uid ts 0 xs [] [] w = (Inl e, w'))"
  using uploadLoop_chain[where i = 0 and P = "[]" and D = "[]" and xs = xs and w = w
      and sv = sv and uid = uid and ts = ts]
  unfolding append_Nil add_0 .

lemma uploadOne_stored:
  "storedAs sv (storagePathOf uid ts i (file_name (pending_file x))) (pending_file x) w u w1 \<Longrightarrow>
   uploadOne sv uid ts i x w =
     (Inr (persistedOf x (storagePathOf uid ts i (file_name (pending_file x))),
           displayOf x (storagePathOf uid ts i (file_name (pending_file x))) u), w1)"
  by (auto simp: uploadOne_def storedAs_def Let_def split: prod.splits option.splits)

lemma uploadOne_refused:
  "refusedWith sv (storagePathOf uid ts i (file_name (pending_file x))) (pending_file x) w e w1 \<Longrightarrow>
   uploadOne sv uid ts i x w = (Inl e, w1)"
  by (auto simp: uploadOne_def refusedWith_def Let_def split: prod.splits option.splits)

lemma uploadLoop_refused_at:
  "k < length xs \<Longrightarrow> length ws = Suc k \<Longrightarrow> ws ! 0 = w \<Longrightarrow>
   (\<forall>j<k. \<exists>u. storedAs sv (storagePathOf uid ts (i + j) (file_name (pending_file (xs ! j))))
                  (pending_file (xs ! j)) (ws ! j) u (ws ! Suc j)) \<Longrightarrow>
   refusedWith sv (storagePathOf uid ts (i + k) (file_name (pending_file (xs ! k))))
       (pending_file (xs ! k)) (ws ! k) e w' \<Longrightarrow>
   uploadLoop sv uid ts i xs P D w = (Inl e, w')"
proof (induction xs arbitrary: i P D w k ws)
  case Nil
  then show ?case by simp
next
  case (Cons x xs)
  show ?case
  proof (cases k)
    case 0
    with Cons.prems have "refusedWith sv (storagePathOf uid ts i (file_name (pending_file x)))
       (pending_file x) w e w'" by simp
    from uploadOne_refused[OF this] show ?thesis by simp
  next
    case (Suc k')
    with Cons.prems(2) obtain v vs where ws: "ws = v # vs" "length vs = Suc k'"
      by (cases ws) auto
    with Cons.prems(3) have v: "v = w" by simp
    from Cons.prems(4) Suc obtain u where
      "storedAs sv (storagePathOf uid ts (i + 0) (file_name (pending_file ((x # xs) ! 0))))
                  (pending_file ((x # xs) ! 0)) (ws ! 0) u (ws ! Suc 0)"
      by blast
    with ws v have st0: "storedAs sv (storagePathOf uid ts i (file_name (pending_file x)))
                  (pending_file x) w u (vs ! 0)" by simp
    have chain: "\<forall>j<k'. \<exists>u. storedAs sv (storagePathOf uid ts (Suc i + j) (file_name (pending_file (xs ! j))))
                  (pending_file (xs ! j)) (vs ! j) u (vs ! Suc j)"
    proof (intro allI impI)
      fix j assume "j < k'"
      with Suc have "Suc j < k" by simp
      with Cons.prems(4) obtain u' where
        "storedAs sv (storagePathOf uid ts (i + Suc j) (file_name (pending_file ((x # xs) ! Suc j))))
                  (pending_file ((x # xs) ! Suc j)) (ws ! Suc j) u' (ws ! Suc (Suc j))" by blast
      with ws show "\<exists>u. storedAs sv (storagePathOf uid ts (Suc i + j) (file_name (pending_file (xs ! j))))
                  (pending_file (xs ! j)) (vs ! j) u (vs ! Suc j)" by auto
    qed
    have ref: "refusedWith sv (storagePathOf uid ts (Suc i + k') (file_name (pending_file (xs ! k'))))
       (pending_file (xs ! k')) (vs ! k') e w'"
      using Cons.prems(5) Suc ws by simp
    have kk: "k' < length xs" using Cons.prems(1) Suc by simp
    have "uploadLoop sv uid ts (Suc i) xs
            (P @ [persistedOf x (storagePathOf uid ts i (file_name (pending_file x)))])
            (D @ [displayOf x (storagePathOf uid ts i (file_name (pending_file x))) u]) (vs ! 0)
          = (Inl e, w')"
      by (rule Cons.IH[OF kk ws(2) refl chain ref])
    with uploadOne_stored[OF st0] show ?thesis by simp
  qed
qed

text \<open>
  C2. For a signed-in user (the user id is present and not empty, which the only caller
  has checked), the outcome of \<open>uploadAttachments\<close> on \<open>N\<close> staged attachments is fixed by
  the answers of the storage service. There are an index \<open>k\<close> and worlds \<open>ws\<close> such that,
  starting from the given world, each of the first \<open>k\<close> attachments was uploaded without
  error and signed without error with a non-empty URL. If \<open>k = N\<close> the result is exactly
  \<open>N\<close> persisted and \<open>N\<close> display attachments, the \<open>j\<close>-th pair built from the \<open>j\<close>-th
  staged attachment, its path and its signed URL. Otherwise the upload or the signing of
  attachment \<open>k\<close> failed, the call raises that error, returns no pair, leaves the component
  state unchanged, and the world is the one the failing call left. Conversely, whenever
  the first \<open>k\<close> attachments are stored and attachment \<open>k\<close> is refused, the call raises
  the error of that refusal.
\<close>

theorem uploadAttachments_all_or_nothing:
  assumes "userId props = Some uid" and "uid \<noteq> []"
  shows "(\<exists>k ws us.
       k \<le> length (pendingAttachments st) \<and> length ws = Suc k \<and> length us = k \<and> ws ! 0 = w
     \<and> (\<forall>j<k. storedAs sv
            (storagePathOf uid timestamp j (file_name (pending_file (pendingAttachments st ! j))))
            (pending_file (pendingAttachments st ! j)) (ws ! j) (us ! j) (ws ! Suc j))
     \<and> (if k = length (pendingAttachments st)
         then uploadAttachments sv props timestamp (st, w) =
               (Inr (map (\<lambda>j. \<lparr> p_name = file_name (pending_file (pendingAttachments st ! j)),
                                 p_type = file_type (pending_file (pendingAttachments st ! j)),
                                 p_size = file_size (pending_file (pendingAttachments st ! j)),
                                 p_storagePath = storagePathOf uid timestamp j
                                    (file_name (pending_file (pendingAttachments st ! j))) \<rparr>)
                         [0..<length (pendingAttachments st)],
                     map (\<lambda>j. \<lparr> att_name = file_name (pending_file (pendingAttachments st ! j)),
                                 att_url = us ! j,
                                 att_type = file_type (pending_file (pendingAttachments st ! j)),
                                 att_size = file_size (pending_file (pendingAttachments st ! j)),
                                 att_storagePath = Some (storagePathOf uid timestamp j
                                    (file_name (pending_file (pendingAttachments st ! j)))) \<rparr>)
                         [0..<length (pendingAttachments st)]),
                st\<lparr>pendingAttachments := []\<rparr>,
                foldl (revokeObjectURL sv) (ws ! k) (map previewUrl (pendingAttachments st)))
         else \<exists>e w'.
                refusedWith sv
                  (storagePathOf uid timestamp k (file_name (pending_file (pendingAttachments st ! k))))
                  (pending_file (pendingAttachments st ! k)) (ws ! k) e w'
              \<and> uploadAttachments sv props timestamp (st, w) = (Inl e, st, w')))
   \<and> (\<forall>k ws e w'.
         k < length (pendingAttachments st) \<and> length ws = Suc k \<and> ws ! 0 = w
         \<and> (\<forall>j<k. \<exists>u. storedAs sv
              (storagePathOf uid timestamp j (file_name (pending_file (pendingAttachments st ! j))))
              (pending_file (pendingAttachments st ! j)) (ws ! j) u (ws ! Suc j))
         \<and> refusedWith sv
              (storagePathOf uid timestamp k (file_name (pending_file (pendingAttachments st ! k))))
              (pending_file (pendingAttachments st ! k)) (ws ! k) e w'
         \<longrightarrow> uploadAttachments sv props timestamp (st, w) = (Inl e, st, w'))"
proof (intro conjI allI impI)
  from uploadLoop_chain0[of "pendingAttachments st" w sv uid timestamp]
  obtain k ws us where k: "k \<le> length (pendingAttachments st)" "length ws = Suc k"
      "length us = k" "ws ! 0 = w"
    and chain: "\<forall>j<k. storedAs sv
            (storagePathOf uid timestamp j (file_name (pending_file (pendingAttachments st ! j))))
            (pending_file (pendingAttachments st ! j)) (ws ! j) (us ! j) (ws ! Suc j)"
    and res: "if k = length (pendingAttachments st)
         then uploadLoop sv uid timestamp 0 (pendingAttachments st) [] [] w =
               (Inr (map (\<lambda>j. persistedOf (pendingAttachments st ! j)
                                 (storagePathOf uid timestamp j (file_name (pending_file (pendingAttachments st ! j)))))
                           [0..<length (pendingAttachments st)],
                     map (\<lambda>j. displayOf (pendingAttachments st ! j)
                                 (storagePathOf uid timestamp j (file_name (pending_file (pendingAttachments st ! j))))
                                 (us ! j))
                           [0..<length (pendingAttachments st)]),
                ws ! k)
         else \<exists>e w'. refusedWith sv (storagePathOf uid timestamp k (file_name (pending_file (pendingAttachments st ! k))))
                        (pending_file (pendingAttachments st ! k)) (ws ! k) e w'
                    \<and> uploadLoop sv uid timestamp 0 (pendingAttachments st) [] [] w = (Inl e, w')"
    by blast
  show "\<exists>k ws us.
       k \<le> length (pendingAttachments st) \<and> length ws = Suc k \<and> length us = k \<and> ws ! 0 = w
     \<and> (\<forall>j<k. storedAs sv
            (storagePathOf uid timestamp j (file_name (pending_file (pendingAttachments st ! j))))
            (pending_file (pendingAttachments st ! j)) (ws ! j) (us ! j) (ws ! Suc j))
     \<and> (if k = length (pendingAttachments st)
         then uploadAttachments sv props timestamp (st, w) =
               (Inr (map (\<lambda>j. \<lparr> p_name = file_name (pending_file (pendingAttachments st ! j)),
                                 p_type = file_type (pending_file (pendingAttachments st ! j)),
                                 p_size = file_size (pending_file (pendingAttachments st ! j)),
                                 p_storagePath = storagePathOf uid timestamp j
                                    (file_name (pending_file (pendingAttachments st ! j))) \<rparr>)
                         [0..<length (pendingAttachments st)],
                     map (\<lambda>j. \<lparr> att_name = file_name (pending_file (pendingAttachments st ! j)),
                                 att_url = us ! j,
                                 att_type = file_type (pending_file (pendingAttachments st ! j)),
                                 att_size = file_size (pending_file (pendingAttachments st ! j)),
                                 att_storagePath = Some (storagePathOf uid timestamp j
                                    (file_name (pending_file (pendingAttachments st ! j)))) \<rparr>)
                         [0..<length (pendingAttachments st)]),
                st\<lparr>pendingAttachments := []\<rparr>,
                foldl (revokeObjectURL sv) (ws ! k) (map previewUrl (pendingAttachments st)))
         else \<exists>e w'.
                refusedWith sv
                  (storagePathOf uid timestamp k (file_name (pending_file (pendingAttachments st ! k))))
                  (pending_file (pendingAttachments st ! k)) (ws ! k) e w'
              \<and> uploadAttachments sv props timestamp (st, w) = (Inl e, st, w'))"
  proof (intro exI[of _ k] exI[of _ ws] exI[of _ us] conjI)
    show "if k = length (pendingAttachments st)
         then uploadAttachments sv props timestamp (st, w) =
               (Inr (map (\<lambda>j. \<lparr> p_name = file_name (pending_file (pendingAttachments st ! j)),
                                 p_type = file_type (pending_file (pendingAttachments st ! j)),
                                 p_size = file_size (pending_file (pendingAttachments st ! j)),
                                 p_storagePath = storagePathOf uid timestamp j
                                    (file_name (pending_file (pendingAttachments st ! j))) \<rparr>)
                         [0..<length (pendingAttachments st)],
                     map (\<lambda>j. \<lparr> att_name = file_name (pending_file (pendingAttachments st ! j)),
                                 att_url = us ! j,
                                 att_type = file_type (pending_file (pendingAttachments st ! j)),
                                 att_size = file_size (pending_file (pendingAttachments st ! j)),
                                 att_storagePath = Some (storagePathOf uid timestamp j
                                    (file_name (pending_file (pendingAttachments st ! j)))) \<rparr>)
                         [0..<length (pendingAttachments st)]),
                st\<lparr>pendingAttachments := []\<rparr>,
                foldl (revokeObjectURL sv) (ws ! k) (map previewUrl (pendingAttachments st)))
         else \<exists>e w'.
                refusedWith sv
                  (storagePathOf uid timestamp k (file_name (pending_file (pendingAttachments st ! k))))
                  (pending_file (pendingAttachments st ! k)) (ws ! k) e w'
              \<and> uploadAttachments sv props timestamp (st, w) = (Inl e, st, w')"
    proof (cases "k = length (pendingAttachments st)")
      case True
      with res assms show ?thesis
        by (simp add: uploadAttachments_def persistedOf_def displayOf_def)
    next
      case False
      with res obtain e w' where
        "refusedWith sv (storagePathOf uid timestamp k (file_name (pending_file (pendingAttachments st ! k))))
                        (pending_file (pendingAttachments st ! k)) (ws ! k) e w'"
        "uploadLoop sv uid timestamp 0 (pendingAttachments st) [] [] w = (Inl e, w')"
        by auto
      with False assms show ?thesis by (auto simp: uploadAttachments_def)
    qed
  qed (use k chain in simp_all)
next
  fix k ws e w'
  assume a: "k < length (pendingAttachments st) \<and> length ws = Suc k \<and> ws ! 0 = w
         \<and> (\<forall>j<k. \<exists>u. storedAs sv
              (storagePathOf uid timestamp j (file_name (pending_file (pendingAttachments st ! j))))
              (pending_file (pendingAttachments st ! j)) (ws ! j) u (ws ! Suc j))
         \<and> refusedWith sv
              (storagePathOf uid timestamp k (file_name (pending_file (pendingAttachments st ! k))))
              (pending_file (pendingAttachments st ! k)) (ws ! k) e w'"
  then have "uploadLoop sv uid timestamp 0 (pendingAttachments st) [] [] w = (Inl e, w')"
    using uploadLoop_refused_at[of k "pendingAttachments st" ws w sv uid timestamp 0 e w' "[]" "[]"]
    by simp
  with assms show "uploadAttachments sv props timestamp (st, w) = (Inl e, st, w')"
    by (simp add: uploadAttachments_def)
qed


theorem uploadAttachments_all_or_nothing_witness:
  "userId memberProps = Some (lit ''u1'') \<and> lit ''u1'' \<noteq> []
   \<and> storedAs (loggingServices providerError [] [lit ''u1/1700-1-cell.png''])
        (lit ''u1/1700-0-my_notes.pdf'') (pending_file notesPdf) []
        (lit ''https://signed/'' @ lit ''u1/1700-0-my_notes.pdf'')
        [CallUpload (lit ''u1/1700-0-my_notes.pdf''), CallSign (lit ''u1/1700-0-my_notes.pdf'')]
   \<and> refusedWith (loggingServices providerError [] [lit ''u1/1700-1-cell.png''])
        (lit ''u1/1700-1-cell.png'') (pending_file cellPng)
        [CallUpload (lit ''u1/1700-0-my_notes.pdf''), CallSign (lit ''u1/1700-0-my_notes.pdf'')]
        (ErrorObject (lit ''Object not found''))
        [CallUpload (lit ''u1/1700-0-my_notes.pdf''), CallSign (lit ''u1/1700-0-my_notes.pdf''),
         CallUpload (lit ''u1/1700-1-cell.png''), CallSign (lit ''u1/1700-1-cell.png'')]
   \<and> uploadAttachments (loggingServices providerError [] [lit ''u1/1700-1-cell.png''])
        memberProps 1700 (stagedChat, [])
      = (Inl (ErrorObject (lit ''Object not found'')), stagedChat,
         [CallUpload (lit ''u1/1700-0-my_notes.pdf''), CallSign (lit ''u1/1700-0-my_notes.pdf''),
          CallUpload (lit ''u1/1700-1-cell.png''), CallSign (lit ''u1/1700-1-cell.png'')])"
proof -
  let ?sv = "loggingServices providerError [] [lit ''u1/1700-1-cell.png'']"
  let ?w1 = "[CallUpload (lit ''u1/1700-0-my_notes.pdf''), CallSign (lit ''u1/1700-0-my_notes.pdf'')]"
  let ?w2 = "[CallUpload (lit ''u1/1700-0-my_notes.pdf''), CallSign (lit ''u1/1700-0-my_notes.pdf''),
          CallUpload (lit ''u1/1700-1-cell.png''), CallSign (lit ''u1/1700-1-cell.png'')]"
  have h1: "userId memberProps = Some (lit ''u1'')" by (simp add: memberProps_def)
  have h2: "lit ''u1'' \<noteq> []" by (simp add: lit_def)
  have s0: "storedAs ?sv (lit ''u1/1700-0-my_notes.pdf'') (pending_file notesPdf) []
        (lit ''https://signed/'' @ lit ''u1/1700-0-my_notes.pdf'') ?w1"
    by (simp add: storedAs_def loggingServices_simps lit_eq_iff lit_Nil_iff)
  have r1: "refusedWith ?sv (lit ''u1/1700-1-cell.png'') (pending_file cellPng) ?w1
        (ErrorObject (lit ''Object not found'')) ?w2"
    by (simp add: refusedWith_def loggingServices_simps)
  have pend: "pendingAttachments stagedChat = [notesPdf, cellPng]" by (simp add: stagedChat_def)
  have n0: "file_name (pending_file notesPdf) = lit ''my notes.pdf''" by (simp add: notesPdf_def)
  have n1: "file_name (pending_file cellPng) = lit ''cell.png''" by (simp add: cellPng_def)
  have chain: "\<forall>j<Suc 0. \<exists>u. storedAs ?sv
              (storagePathOf (lit ''u1'') 1700 j (file_name (pending_file (pendingAttachments stagedChat ! j))))
              (pending_file (pendingAttachments stagedChat ! j)) ([[], ?w1] ! j) u ([[], ?w1] ! Suc j)"
    using s0 by (auto simp: pend n0 storagePath_notes)
  have refused: "refusedWith ?sv
              (storagePathOf (lit ''u1'') 1700 (Suc 0) (file_name (pending_file (pendingAttachments stagedChat ! Suc 0))))
              (pending_file (pendingAttachments stagedChat ! Suc 0)) ([[], ?w1] ! Suc 0)
              (ErrorObject (lit ''Object not found'')) ?w2"
    using r1 by (simp add: pend n1 storagePath_cell)
  have len: "Suc 0 < length (pendingAttachments stagedChat)" by (simp add: pend)
  from uploadAttachments_all_or_nothing [OF h1 h2, where sv = ?sv and timestamp = 1700
      and st = stagedChat and w = "[]", THEN conjunct2, rule_format,
      of "Suc 0" "[[], ?w1]" "ErrorObject (lit ''Object not found'')" ?w2]
    len chain refused
  have "uploadAttachments ?sv memberProps 1700 (stagedChat, [])
      = (Inl (ErrorObject (lit ''Object not found'')), stagedChat, ?w2)"
    by simp
  with h1 h2 s0 r1 show ?thesis by simp
qed

text \<open>
  C4. When the provider's answer to the sign-up call carries an error, or carries no
  user, \<open>signUp\<close> raises (the provider's error, or the error saying that no user was
  returned) and the world is the one the provider's call left: no profile row is written.
  No user value is returned, and \<open>handleAuthenticate\<close> leaves the application state, with
  its user, as it was.
\<close>

theorem signUp_provider_failure:
  assumes "auth_signUp sv w email password name = (resp, w1)"
    and "auth_error resp \<noteq> None \<or> data_user resp = None"
  shows "signUp sv name email password w =
      (Inl (case auth_error resp of Some e \<Rightarrow> e
            | None \<Rightarrow> ErrorObject (lit ''Sign up succeeded but no user was returned.'')), w1)
    \<and> (authMode st = Some Signup \<and> name \<noteq> [] \<longrightarrow>
         handleAuthenticate sv (Some name) email password (st, w) =
          (Some (case auth_error resp of Some e \<Rightarrow> e
            | None \<Rightarrow> ErrorObject (lit ''Sign up succeeded but no user was returned.'')), st, w1))"
  using assms
  by (auto simp: signUp_def handleAuthenticate_def split: option.splits)

theorem signUp_provider_failure_witness:
  "auth_signUp (loggingServices providerError [] []) [] (lit ''ada@example.org'') (lit ''pw'') (lit ''Ada'')
     = (providerError, [CallSignUp (lit ''ada@example.org'')])
   \<and> auth_error providerError = Some (ErrorObject (lit ''User already registered''))
   \<and> authMode freshApp = Some Signup \<and> lit ''Ada'' \<noteq> []
   \<and> signUp (loggingServices providerError [] []) (lit ''Ada'') (lit ''ada@example.org'') (lit ''pw'') []
     = (Inl (ErrorObject (lit ''User already registered'')), [CallSignUp (lit ''ada@example.org'')])
   \<and> handleAuthenticate (loggingServices providerError [] []) (Some (lit ''Ada''))
        (lit ''ada@example.org'') (lit ''pw'') (freshApp, [])
     = (Some (ErrorObject (lit ''User already registered'')), freshApp,
        [CallSignUp (lit ''ada@example.org'')])"
proof -
  have h1: "auth_signUp (loggingServices providerError [] []) [] (lit ''ada@example.org'') (lit ''pw'') (lit ''Ada'')
     = (providerError, [CallSignUp (lit ''ada@example.org'')])"
    by (simp add: loggingServices_simps)
  have h2: "auth_error providerError \<noteq> None \<or> data_user providerError = None"
    by (simp add: providerError_def)
  have h3: "authMode freshApp = Some Signup" by (simp add: freshApp_def)
  have h4: "lit ''Ada'' \<noteq> []" by (simp add: lit_def)
  have h5: "auth_error providerError = Some (ErrorObject (lit ''User already registered''))"
    by (simp add: providerError_def)
  show ?thesis
    using signUp_provider_failure [OF h1 h2, where st = freshApp] h1 h2 h3 h4 h5 by simp
qed

text \<open>A provider that answers without error and without a user.\<close>

lemma signUp_no_user_example:
  "signUp (loggingServices \<lparr>data_user = None, auth_error = None\<rparr> [] [])
      (lit ''Ada'') (lit ''ada@example.org'') (lit ''pw'') []
     = (Inl (ErrorObject (lit ''Sign up succeeded but no user was returned.'')),
        [CallSignUp (lit ''ada@example.org'')])"
  by (simp add: signUp_def loggingServices_simps)

text \<open>
  C3. When the input trims to the empty string and nothing is staged,
  \<open>handleSendMessage\<close> returns the component state and the world unchanged, whatever the
  services are: no message is appended and neither the model session nor any other
  service is called.
\<close>

theorem empty_send_is_ignored:
  assumes "trim (input st) = []" and "pendingAttachments st = []"
  shows "handleSendMessage sv props timestamp (st, w) = (st, w)"
  using assms by (simp add: handleSendMessage_def)

theorem empty_send_is_ignored_witness:
  "trim (input blankChat) = [] \<and> pendingAttachments blankChat = []
   \<and> handleSendMessage (loggingServices providerError [] []) memberProps 1700 (blankChat, [])
       = (blankChat, [])"
proof -
  have h1: "trim (input blankChat) = []"
    by (simp add: blankChat_def trim_def isWhiteSpace_def)
  have h2: "pendingAttachments blankChat = []" by (simp add: blankChat_def)
  show ?thesis using empty_send_is_ignored [OF h1 h2] h1 h2 by simp
qed

lemma resolveAttachment_shownAs:
  "resolveAttachment sv a w =
     (shownAs a (fst (storage_createSignedUrl sv w (p_storagePath a) SIGNED_URL_TTL_SECONDS)),
      snd (storage_createSignedUrl sv w (p_storagePath a) SIGNED_URL_TTL_SECONDS))"
  by (auto simp: resolveAttachment_def shownAs_def truthy_def split: prod.splits option.splits)

lemma worldAfterSigning_Cons:
  "worldAfterSigning sv w (p # ps) =
     worldAfterSigning sv (snd (storage_createSignedUrl sv w p SIGNED_URL_TTL_SECONDS)) ps"
  by (simp add: worldAfterSigning_def)

lemma worldAfterSigning_Nil: "worldAfterSigning sv w [] = w"
  by (simp add: worldAfterSigning_def)

lemma worldAfterSigning_append:
  "worldAfterSigning sv w (ps @ qs) = worldAfterSigning sv (worldAfterSigning sv w ps) qs"
  by (simp add: worldAfterSigning_def)

lemma signingAnswers_append:
  "signingAnswers sv w (ps @ qs) =
     signingAnswers sv w ps @ signingAnswers sv (worldAfterSigning sv w ps) qs"
  by (induction ps arbitrary: w) (simp_all add: worldAfterSigning_Nil worldAfterSigning_Cons)

lemma length_signingAnswers: "length (signingAnswers sv w ps) = length ps"
  by (induction ps arbitrary: w) simp_all

lemma signing_step:
  "j < length ps \<Longrightarrow>
   storage_createSignedUrl sv (worldAfterSigning sv w (take j ps)) (ps ! j) SIGNED_URL_TTL_SECONDS
     = (signingAnswers sv w ps ! j, worldAfterSigning sv w (take (Suc j) ps))"
proof (induction ps arbitrary: j w)
  case Nil
  then show ?case by simp
next
  case (Cons p ps)
  show ?case
  proof (cases j)
    case 0
    then show ?thesis by (simp add: worldAfterSigning_Nil worldAfterSigning_Cons)
  next
    case (Suc j')
    with Cons.prems have "j' < length ps" by simp
    from Cons.IH[OF this, of "snd (storage_createSignedUrl sv w p SIGNED_URL_TTL_SECONDS)"] Suc
    show ?thesis by (simp add: worldAfterSigning_Cons)
  qed
qed

lemma resolveAttachments_answers:
  "resolveAttachments sv ps w =
     (map (\<lambda>(a, signed). shownAs a signed)
          (zip ps (signingAnswers sv w (map p_storagePath ps))),
      worldAfterSigning sv w (map p_storagePath ps))"
  by (induction ps arbitrary: w)
     (simp_all add: resolveAttachment_shownAs worldAfterSigning_Nil worldAfterSigning_Cons)

lemma resolveEntries_answers:
  "resolveEntries sv es w = (ms, w') \<Longrightarrow>
   w' = worldAfterSigning sv w (map p_storagePath (concat (map storedAttachments es)))
   \<and> length ms = length es
   \<and> (\<forall>i<length es. msg_role (ms ! i) = entry_role (es ! i)
          \<and> content (ms ! i) = entry_content (es ! i)
          \<and> (case entry_attachments (es ! i) of
                ColArray ps \<Rightarrow> \<exists>as. attachments (ms ! i) = Some as \<and> length as = length ps
              | _ \<Rightarrow> attachments (ms ! i) = None))
   \<and> concat (map shownAttachments ms) =
       map (\<lambda>(a, signed). shownAs a signed)
           (zip (concat (map storedAttachments es))
                (signingAnswers sv w (map p_storagePath (concat (map storedAttachments es)))))"
proof (induction es arbitrary: w ms w')
  case Nil
  then show ?case by (simp add: worldAfterSigning_Nil)
next
  case (Cons e es)
  let ?ps = "storedAttachments e"
  let ?w1 = "worldAfterSigning sv w (map p_storagePath ?ps)"
  let ?as = "map (\<lambda>(a, signed). shownAs a signed) (zip ?ps (signingAnswers sv w (map p_storagePath ?ps)))"
  obtain ms' w2 where rest: "resolveEntries sv es ?w1 = (ms', w2)"
    by (cases "resolveEntries sv es ?w1")
  define m where "m = \<lparr> msg_role = entry_role e, content = entry_content e,
      attachments = (case entry_attachments e of ColArray ps \<Rightarrow> Some ?as | _ \<Rightarrow> None) \<rparr>"
  have run: "resolveEntries sv (e # es) w = (m # ms', w2)"
    using rest unfolding m_def
    by (cases "entry_attachments e")
       (simp_all add: storedAttachments_def resolveAttachments_answers worldAfterSigning_Nil)
  with Cons.prems have ms: "ms = m # ms'" and w': "w' = w2" by simp_all
  note IH = Cons.IH[OF rest]
  have shown_m: "shownAttachments m = ?as"
    unfolding m_def by (cases "entry_attachments e") (simp_all add: shownAttachments_def storedAttachments_def)
  have len_as: "length ?as = length ?ps" by (simp add: length_signingAnswers)
  have att_m: "(case entry_attachments e of
                ColArray ps \<Rightarrow> \<exists>as. attachments m = Some as \<and> length as = length ps
              | _ \<Rightarrow> attachments m = None)"
    unfolding m_def
    by (cases "entry_attachments e") (simp_all add: storedAttachments_def length_signingAnswers)
  have a: "w' = worldAfterSigning sv w (map p_storagePath (concat (map storedAttachments (e # es))))"
    using IH w' by (simp add: worldAfterSigning_append)
  have b: "length ms = length (e # es)" using IH ms by simp
  have c: "\<forall>i<length (e # es). msg_role (ms ! i) = entry_role ((e # es) ! i)
          \<and> content (ms ! i) = entry_content ((e # es) ! i)
          \<and> (case entry_attachments ((e # es) ! i) of
                ColArray ps \<Rightarrow> \<exists>as. attachments (ms ! i) = Some as \<and> length as = length ps
              | _ \<Rightarrow> attachments (ms ! i) = None)"
  proof (intro allI impI)
    fix i assume "i < length (e # es)"
    show "msg_role (ms ! i) = entry_role ((e # es) ! i)
          \<and> content (ms ! i) = entry_content ((e # es) ! i)
          \<and> (case entry_attachments ((e # es) ! i) of
                ColArray ps \<Rightarrow> \<exists>as. attachments (ms ! i) = Some as \<and> length as = length ps
              | _ \<Rightarrow> attachments (ms ! i) = None)"
    proof (cases i)
      case 0
      have "msg_role m = entry_role e" "content m = entry_content e" by (simp_all add: m_def)
      with 0 att_m ms show ?thesis by (cases "entry_attachments e") simp_all
    next
      case (Suc i')
      with \<open>i < length (e # es)\<close> IH ms show ?thesis
        by (cases "entry_attachments (es ! i')") auto
    qed
  qed
  have d: "concat (map shownAttachments ms) =
       map (\<lambda>(a, signed). shownAs a signed)
           (zip (concat (map storedAttachments (e # es)))
                (signingAnswers sv w (map p_storagePath (concat (map storedAttachments (e # es))))))"
    using IH ms shown_m
    by (simp add: signingAnswers_append length_signingAnswers)
  from a b c d show ?case by blast
qed


lemma fetchHistory_total:
  "db_messages_select sv w uid = (resp, w0) \<Longrightarrow> select_error resp = None \<Longrightarrow>
   \<exists>ms w'. fetchHistory sv uid w = (Inr ms, w')"
  by (auto simp: fetchHistory_def split: option.splits prod.splits)

text \<open>
  C8. When the message table is read without error, \<open>fetchHistory\<close> never raises, whatever
  the signing calls answer. Every row gives one message, in order, with its role and
  content, and with attachments exactly when the row holds an array. The URL of every
  stored attachment is signed by a call of its own, the calls being made in the order of
  the rows; the attachment is shown with its own name, type, size and storage path, and
  with the URL \<open>#\<close> if that one call reported an error or gave no URL, with the signed URL
  of that call otherwise. So a failing call degrades its own attachment and no other.
\<close>

theorem history_signing_failure_degrades_one:
  assumes "db_messages_select sv w uid = (resp, w0)"
    and "select_error resp = None"
    and "select_data resp = Some entries"
  shows "let stored = concat (map storedAttachments entries) in
    \<exists>ws signs ms.
      length ws = Suc (length stored) \<and> length signs = length stored \<and> ws ! 0 = w0
    \<and> (\<forall>j<length stored.
          storage_createSignedUrl sv (ws ! j) (p_storagePath (stored ! j)) SIGNED_URL_TTL_SECONDS
            = (signs ! j, ws ! Suc j))
    \<and> fetchHistory sv uid w = (Inr ms, ws ! length stored)
    \<and> length ms = length entries
    \<and> (\<forall>i<length entries.
          msg_role (ms ! i) = entry_role (entries ! i)
          \<and> content (ms ! i) = entry_content (entries ! i)
          \<and> (case entry_attachments (entries ! i) of
                ColArray ps \<Rightarrow> \<exists>as. attachments (ms ! i) = Some as \<and> length as = length ps
              | _ \<Rightarrow> attachments (ms ! i) = None))
    \<and> length (concat (map shownAttachments ms)) = length stored
    \<and> (\<forall>j<length stored.
          concat (map shownAttachments ms) ! j =
            \<lparr> att_name = p_name (stored ! j),
              att_url = (case signedError (signs ! j) of
                           Some e \<Rightarrow> lit ''#''
                         | None \<Rightarrow> (case signedUrl (signs ! j) of
                                     None \<Rightarrow> lit ''#''
                                   | Some u \<Rightarrow> if u = [] then lit ''#'' else u)),
              att_type = p_type (stored ! j), att_size = p_size (stored ! j),
              att_storagePath = Some (p_storagePath (stored ! j)) \<rparr>)"
proof -
  define stored where "stored = concat (map storedAttachments entries)"
  define paths where "paths = map p_storagePath stored"
  define ws where "ws = map (\<lambda>j. worldAfterSigning sv w0 (take j paths)) [0..<Suc (length stored)]"
  define signs where "signs = signingAnswers sv w0 paths"
  obtain ms w' where run: "resolveEntries sv entries w0 = (ms, w')"
    by (cases "resolveEntries sv entries w0")
  note facts = resolveEntries_answers[OF run, folded stored_def, folded paths_def, folded signs_def]
  have lp: "length paths = length stored" by (simp add: paths_def)
  have l1: "length ws = Suc (length stored)" by (simp add: ws_def)
  have l2: "length signs = length stored" by (simp add: signs_def length_signingAnswers lp)
  have w0: "ws ! 0 = w0"
    unfolding ws_def by (simp add: nth_map_upt worldAfterSigning_Nil del: upt_Suc)
  have wsn: "\<And>j. j \<le> length stored \<Longrightarrow> ws ! j = worldAfterSigning sv w0 (take j paths)"
    unfolding ws_def by (simp add: nth_map_upt del: upt_Suc)
  have chain: "\<forall>j<length stored.
          storage_createSignedUrl sv (ws ! j) (p_storagePath (stored ! j)) SIGNED_URL_TTL_SECONDS
            = (signs ! j, ws ! Suc j)"
  proof (intro allI impI)
    fix j assume j: "j < length stored"
    then have "j < length paths" by (simp add: lp)
    from signing_step[OF this, of sv w0] j
    show "storage_createSignedUrl sv (ws ! j) (p_storagePath (stored ! j)) SIGNED_URL_TTL_SECONDS
            = (signs ! j, ws ! Suc j)"
      by (simp add: wsn signs_def paths_def)
  qed
  have last: "ws ! length stored = w'"
    using facts by (simp add: wsn lp[symmetric])
  have fh: "fetchHistory sv uid w = (Inr ms, ws ! length stored)"
    using assms run last by (simp add: fetchHistory_def)
  have shown: "concat (map shownAttachments ms) = map (\<lambda>(a, signed). shownAs a signed) (zip stored signs)"
    using facts by simp
  have l3: "length (concat (map shownAttachments ms)) = length stored"
    by (simp add: shown l2)
  have each: "\<forall>j<length stored.
          concat (map shownAttachments ms) ! j =
            \<lparr> att_name = p_name (stored ! j),
              att_url = (case signedError (signs ! j) of
                           Some e \<Rightarrow> lit ''#''
                         | None \<Rightarrow> (case signedUrl (signs ! j) of
                                     None \<Rightarrow> lit ''#''
                                   | Some u \<Rightarrow> if u = [] then lit ''#'' else u)),
              att_type = p_type (stored ! j), att_size = p_size (stored ! j),
              att_storagePath = Some (p_storagePath (stored ! j)) \<rparr>"
    by (simp add: shown l2 shownAs_def)
  have rows: "length ms = length entries" "\<forall>i<length entries.
          msg_role (ms ! i) = entry_role (entries ! i)
          \<and> content (ms ! i) = entry_content (entries ! i)
          \<and> (case entry_attachments (entries ! i) of
                ColArray ps \<Rightarrow> \<exists>as. attachments (ms ! i) = Some as \<and> length as = length ps
              | _ \<Rightarrow> attachments (ms ! i) = None)"
    using facts by simp_all
  show ?thesis
    unfolding Let_def stored_def[symmetric]
    using l1 l2 w0 chain fh rows l3 each by blast
qed

lemma history_run_three_rows:
  "fetchHistory (loggingServices providerError threeRows [lit ''u1/1700-1-cell.png''])
        (lit ''u1'') []
     = (Inr [ \<lparr> msg_role = RoleModel, content = lit ''Welcome back'', attachments = None \<rparr>,
              \<lparr> msg_role = RoleUser, content = lit ''see these'',
                attachments = Some
                 [\<lparr> att_name = lit ''my notes.pdf'',
                    att_url = lit ''https://signed/'' @ lit ''u1/1700-0-my_notes.pdf'',
                    att_type = lit ''application/pdf'', att_size = 2048,
                    att_storagePath = Some (lit ''u1/1700-0-my_notes.pdf'') \<rparr>,
                  \<lparr> att_name = lit ''cell.png'', att_url = lit ''#'',
                    att_type = lit ''image/png'', att_size = 700,
                    att_storagePath = Some (lit ''u1/1700-1-cell.png'') \<rparr>] \<rparr>,
              \<lparr> msg_role = RoleUser, content = lit ''and this'',
                attachments = Some
                 [\<lparr> att_name = lit ''slides.ppt'',
                    att_url = lit ''https://signed/'' @ lit ''u1/1800-0-slides.ppt'',
                    att_type = lit ''application/vnd.ms-powerpoint'', att_size = 4096,
                    att_storagePath = Some (lit ''u1/1800-0-slides.ppt'') \<rparr>] \<rparr> ],
        [CallSelect (lit ''u1''), CallSign (lit ''u1/1700-0-my_notes.pdf''),
         CallSign (lit ''u1/1700-1-cell.png''), CallSign (lit ''u1/1800-0-slides.ppt'')])"
  by (simp add: fetchHistory_def resolveAttachment_def loggingServices_simps threeRows_def
      storedEntry_def storedNotes_def storedCell_def storedSlides_def lit_eq_iff lit_Nil_iff
      truthy_def)

theorem history_signing_failure_degrades_one_witness:
  "db_messages_select (loggingServices providerError threeRows [lit ''u1/1700-1-cell.png''])
       [] (lit ''u1'')
     = (\<lparr>select_data = Some threeRows, select_error = None\<rparr>, [CallSelect (lit ''u1'')])
   \<and> fetchHistory (loggingServices providerError threeRows [lit ''u1/1700-1-cell.png''])
        (lit ''u1'') []
     = (Inr [ \<lparr> msg_role = RoleModel, content = lit ''Welcome back'', attachments = None \<rparr>,
              \<lparr> msg_role = RoleUser, content = lit ''see these'',
                attachments = Some
                 [\<lparr> att_name = lit ''my notes.pdf'',
                    att_url = lit ''https://signed/'' @ lit ''u1/1700-0-my_notes.pdf'',
                    att_type = lit ''application/pdf'', att_size = 2048,
                    att_storagePath = Some (lit ''u1/1700-0-my_notes.pdf'') \<rparr>,
                  \<lparr> att_name = lit ''cell.png'', att_url = lit ''#'',
                    att_type = lit ''image/png'', att_size = 700,
                    att_storagePath = Some (lit ''u1/1700-1-cell.png'') \<rparr>] \<rparr>,
              \<lparr> msg_role = RoleUser, content = lit ''and this'',
                attachments = Some
                 [\<lparr> att_name = lit ''slides.ppt'',
                    att_url = lit ''https://signed/'' @ lit ''u1/1800-0-slides.ppt'',
                    att_type = lit ''application/vnd.ms-powerpoint'', att_size = 4096,
                    att_storagePath = Some (lit ''u1/1800-0-slides.ppt'') \<rparr>] \<rparr> ],
        [CallSelect (lit ''u1''), CallSign (lit ''u1/1700-0-my_notes.pdf''),
         CallSign (lit ''u1/1700-1-cell.png''), CallSign (lit ''u1/1800-0-slides.ppt'')])"
proof -
  let ?sv = "loggingServices providerError threeRows [lit ''u1/1700-1-cell.png'']"
  let ?resp = "\<lparr>select_data = Some threeRows, select_error = None\<rparr>"
  have h1: "db_messages_select ?sv [] (lit ''u1'') = (?resp, [CallSelect (lit ''u1'')])"
    by (simp add: loggingServices_simps)
  have h2: "select_error ?resp = None" by simp
  have h3: "select_data ?resp = Some threeRows" by simp
  from history_signing_failure_degrades_one [OF h1 h2 h3]
  obtain ws ms where "fetchHistory ?sv (lit ''u1'') []
      = (Inr ms, ws ! length (concat (map storedAttachments threeRows)))"
    and "length ms = length threeRows"
    unfolding Let_def by blast
  then have "length ms = 3" by (simp add: threeRows_def)
  with h1 history_run_three_rows show ?thesis by simp
qed

section \<open>Properties of the voice assistant\<close>

lemma update_last: "ts \<noteq> [] \<Longrightarrow> ts[length ts - Suc 0 := x] = butlast ts @ [x]"
  by (induction ts rule: rev_induct) (auto simp: list_update_append)

lemma toolCalls_keeps:
  "toolCalls fcs st = (st', rs) \<Longrightarrow>
   transcriptions st' = transcriptions st
   \<and> pendingUpdaters st' = pendingUpdaters st
   \<and> currentInputTranscriptionRef st' = currentInputTranscriptionRef st
   \<and> currentOutputTranscriptionRef st' = currentOutputTranscriptionRef st
   \<and> nextStartTimeRef st' = nextStartTimeRef st
   \<and> audioSourcesRef st' = audioSourcesRef st
   \<and> outputAudioContextRef st' = outputAudioContextRef st"
proof (induction fcs arbitrary: st st' rs)
  case Nil
  then show ?case by simp
next
  case (Cons fc fcs)
  obtain nt r where one: "toolCallOne fc = (nt, r)" by (cases "toolCallOne fc")
  obtain st'' rs' where rest:
    "toolCalls fcs (case nt of None \<Rightarrow> st | Some n \<Rightarrow> st\<lparr>notifications := notifications st @ [n]\<rparr>) = (st'', rs')"
    by (cases "toolCalls fcs (case nt of None \<Rightarrow> st | Some n \<Rightarrow> st\<lparr>notifications := notifications st @ [n]\<rparr>)")
  from Cons.prems one rest have "st' = st''" by simp
  with Cons.IH[OF rest] show ?case by (cases nt) simp_all
qed

lemma onToolCall_keeps:
  "transcriptions (fst (onToolCall m st)) = transcriptions st
   \<and> pendingUpdaters (fst (onToolCall m st)) = pendingUpdaters st
   \<and> currentInputTranscriptionRef (fst (onToolCall m st)) = currentInputTranscriptionRef st
   \<and> currentOutputTranscriptionRef (fst (onToolCall m st)) = currentOutputTranscriptionRef st
   \<and> nextStartTimeRef (fst (onToolCall m st)) = nextStartTimeRef st
   \<and> audioSourcesRef (fst (onToolCall m st)) = audioSourcesRef st
   \<and> outputAudioContextRef (fst (onToolCall m st)) = outputAudioContextRef st"
proof (cases "toolCall m")
  case None
  then show ?thesis by (simp add: onToolCall_def)
next
  case (Some fcs)
  obtain st' rs where r: "toolCalls fcs st = (st', rs)" by (cases "toolCalls fcs st")
  from toolCalls_keeps[OF r] Some r show ?thesis by (simp add: onToolCall_def)
qed

lemma transcript_steps_keep_audio:
  "nextStartTimeRef (render st) = nextStartTimeRef st"
  "audioSourcesRef (render st) = audioSourcesRef st"
  "outputAudioContextRef (render st) = outputAudioContextRef st"
  "nextStartTimeRef (onInputTranscription t b st) = nextStartTimeRef st"
  "audioSourcesRef (onInputTranscription t b st) = audioSourcesRef st"
  "outputAudioContextRef (onInputTranscription t b st) = outputAudioContextRef st"
  "nextStartTimeRef (onOutputTranscription t b st) = nextStartTimeRef st"
  "audioSourcesRef (onOutputTranscription t b st) = audioSourcesRef st"
  "outputAudioContextRef (onOutputTranscription t b st) = outputAudioContextRef st"
  "nextStartTimeRef (onTurnComplete b st) = nextStartTimeRef st"
  "audioSourcesRef (onTurnComplete b st) = audioSourcesRef st"
  "outputAudioContextRef (onTurnComplete b st) = outputAudioContextRef st"
  by (simp_all add: onInputTranscription_def onOutputTranscription_def onTurnComplete_def
      setTranscriptions_def render_def Let_def)

text \<open>The state after the three transcript parts of one message.\<close>

lemma after_transcript_keeps_audio:
  fixes st :: "'t voice_state"
  defines "st3 \<equiv> (\<lambda>sc r. let st1 = (case inputTranscription sc of
                        None \<Rightarrow> st
                      | Some t \<Rightarrow> onInputTranscription t (r InputUpdater) st);
               st2 = (case outputTranscription sc of
                        None \<Rightarrow> st1
                      | Some t \<Rightarrow> onOutputTranscription t (r OutputUpdater) st1)
           in (if turnComplete sc then onTurnComplete (r TurnCompleteUpdater) st2 else st2))"
  shows "nextStartTimeRef (st3 sc r) = nextStartTimeRef st
     \<and> audioSourcesRef (st3 sc r) = audioSourcesRef st
     \<and> outputAudioContextRef (st3 sc r) = outputAudioContextRef st"
  unfolding st3_def
  by (simp add: transcript_steps_keep_audio Let_def split: option.splits)

lemma onmessage_noAudio_keeps:
  fixes st :: "('t::{linorder,plus}) voice_state"
  assumes "noAudio ev"
  shows "nextStartTimeRef (fst (onmessage ev st)) = nextStartTimeRef st
     \<and> audioSourcesRef (fst (onmessage ev st)) = audioSourcesRef st
     \<and> outputAudioContextRef (fst (onmessage ev st)) = outputAudioContextRef st"
proof (cases "serverContent (message ev)")
  case None
  then show ?thesis by (simp add: onmessage_def onToolCall_keeps)
next
  case (Some sc)
  with assms have na: "\<not> truthy (audioData sc)" by (simp add: noAudio_def)
  from Some na show ?thesis
    using after_transcript_keeps_audio[where sc = sc and st = st and r = "runsAtCall ev"]
    by (simp add: onmessage_def onToolCall_keeps Let_def)
qed

lemma processSteps_Cons: "processSteps st (x # xs) = processSteps (stepOf x st) xs"
  by (simp add: processSteps_def)

lemma processSteps_Nil: "processSteps st [] = st"
  by (simp add: processSteps_def)

lemma processSteps_append: "processSteps st (xs @ ys) = processSteps (processSteps st xs) ys"
  by (simp add: processSteps_def)

lemma stepOf_noAudio_keeps:
  fixes st :: "('t::{linorder,plus}) voice_state"
  assumes "noAudioStep x"
  shows "nextStartTimeRef (stepOf x st) = nextStartTimeRef st
     \<and> audioSourcesRef (stepOf x st) = audioSourcesRef st
     \<and> outputAudioContextRef (stepOf x st) = outputAudioContextRef st"
proof (cases x)
  case (Deliver ev)
  with assms have "noAudio ev" by (simp add: noAudioStep_def)
  from onmessage_noAudio_keeps[OF this, of st] Deliver show ?thesis by (simp add: stepOf_def)
next
  case Render
  then show ?thesis by (simp add: stepOf_def transcript_steps_keep_audio)
qed

lemma processSteps_noAudio_keeps:
  fixes st :: "('t::{linorder,plus}) voice_state"
  shows "\<forall>x \<in> set xs. noAudioStep x \<Longrightarrow>
     nextStartTimeRef (processSteps st xs) = nextStartTimeRef st
     \<and> audioSourcesRef (processSteps st xs) = audioSourcesRef st
     \<and> outputAudioContextRef (processSteps st xs) = outputAudioContextRef st"
proof (induction xs arbitrary: st)
  case Nil
  then show ?case by (simp add: processSteps_Nil)
next
  case (Cons x xs)
  from Cons.prems have "noAudioStep x" and "\<forall>y \<in> set xs. noAudioStep y" by simp_all
  with Cons.IH[of "stepOf x st"] stepOf_noAudio_keeps[of x st]
  show ?case by (simp add: processSteps_Cons)
qed

lemma onmessage_audio_scheduled:
  fixes st :: "('t::{linorder,plus}) voice_state"
  assumes "outputAudioContextRef st \<noteq> None"
    and "serverContent (message ev) = Some sc" and "truthy (audioData sc)"
    and "decodedDuration ev = Some d"
  shows "audioSourcesRef (fst (onmessage ev st)) =
           audioSourcesRef st @ [\<lparr>startAt = max (nextStartTimeRef st) (currentTime ev), duration = d\<rparr>]
     \<and> nextStartTimeRef (fst (onmessage ev st)) = max (nextStartTimeRef st) (currentTime ev) + d
     \<and> outputAudioContextRef (fst (onmessage ev st)) = outputAudioContextRef st"
proof -
  from assms(1) obtain ctx where ctx: "outputAudioContextRef st = Some ctx" by auto
  show ?thesis
    using assms(2-4) ctx after_transcript_keeps_audio[where sc = sc and st = st and r = "runsAtCall ev"]
    by (simp add: onmessage_def scheduleAudio_def onToolCall_keeps Let_def)
qed

text \<open>
  C6. With an output context present, two messages that carry audio and decode to buffers
  of durations \<open>d1\<close> and \<open>d2\<close>, handled one after the other with any renders and any
  messages without audio between them, are started at \<open>s1\<close> and \<open>s2\<close> with
  \<open>s1 + d1 \<le> s2\<close>: each start is the later of the cursor and the current time, and the
  cursor moves by the duration of the buffer.
\<close>

theorem playback_chunks_do_not_overlap:
  fixes st :: "('t::{linorder,plus}) voice_state"
  assumes "outputAudioContextRef st \<noteq> None"
    and "serverContent (message ev1) = Some sc1" and "truthy (audioData sc1)"
    and "decodedDuration ev1 = Some d1"
    and "serverContent (message ev2) = Some sc2" and "truthy (audioData sc2)"
    and "decodedDuration ev2 = Some d2"
    and "\<forall>x \<in> set mid. noAudioStep x"
  shows "\<exists>s1 s2.
      audioSourcesRef (fst (onmessage ev1 st))
        = audioSourcesRef st @ [\<lparr>startAt = s1, duration = d1\<rparr>]
    \<and> audioSourcesRef (fst (onmessage ev2 (processSteps (fst (onmessage ev1 st)) mid)))
        = audioSourcesRef st @ [\<lparr>startAt = s1, duration = d1\<rparr>, \<lparr>startAt = s2, duration = d2\<rparr>]
    \<and> s1 + d1 \<le> s2
    \<and> s1 = max (nextStartTimeRef st) (currentTime ev1)
    \<and> s2 = max (s1 + d1) (currentTime ev2)
    \<and> currentTime ev1 \<le> s1 \<and> currentTime ev2 \<le> s2
    \<and> nextStartTimeRef (fst (onmessage ev2 (processSteps (fst (onmessage ev1 st)) mid))) = s2 + d2"
proof -
  let ?st1 = "fst (onmessage ev1 st)"
  let ?stm = "processSteps ?st1 mid"
  let ?s1 = "max (nextStartTimeRef st) (currentTime ev1)"
  let ?s2 = "max (?s1 + d1) (currentTime ev2)"
  have first: "audioSourcesRef ?st1 = audioSourcesRef st @ [\<lparr>startAt = ?s1, duration = d1\<rparr>]"
    "nextStartTimeRef ?st1 = ?s1 + d1" "outputAudioContextRef ?st1 = outputAudioContextRef st"
    using onmessage_audio_scheduled[OF assms(1-4)] by simp_all
  have between: "audioSourcesRef ?stm = audioSourcesRef ?st1"
    "nextStartTimeRef ?stm = nextStartTimeRef ?st1"
    "outputAudioContextRef ?stm = outputAudioContextRef ?st1"
    using processSteps_noAudio_keeps[OF assms(8), of ?st1] by simp_all
  have ctx: "outputAudioContextRef ?stm \<noteq> None"
    using between(3) first(3) assms(1) by simp
  have second: "audioSourcesRef (fst (onmessage ev2 ?stm))
        = audioSourcesRef st @ [\<lparr>startAt = ?s1, duration = d1\<rparr>, \<lparr>startAt = ?s2, duration = d2\<rparr>]"
    "nextStartTimeRef (fst (onmessage ev2 ?stm)) = ?s2 + d2"
    using onmessage_audio_scheduled[OF ctx assms(5-7)] between first by simp_all
  show ?thesis
    using first(1) second by (intro exI[of _ ?s1] exI[of _ ?s2]) simp
qed

theorem playback_chunks_do_not_overlap_witness:
  "outputAudioContextRef ((initialVoiceState :: int voice_state)\<lparr>outputAudioContextRef := Some 1\<rparr>) \<noteq> None
   \<and> serverContent (message (audioChunk (lit ''AAAA'') (5::int) 3))
        = Some \<lparr>inputTranscription = None, outputTranscription = None,
                audioData = Some (lit ''AAAA''), turnComplete = False\<rparr>
   \<and> truthy (Some (lit ''AAAA'')) \<and> truthy (Some (lit ''BBBB''))
   \<and> decodedDuration (audioChunk (lit ''AAAA'') (5::int) 3) = Some 3
   \<and> decodedDuration (audioChunk (lit ''BBBB'') (6::int) 2) = Some 2
   \<and> noAudioStep (Deliver (partialOutput (lit ''hi'') (6::int) atRender))
   \<and> noAudioStep (Render :: int step)
   \<and> audioSourcesRef (fst (onmessage (audioChunk (lit ''BBBB'') 6 2)
        (processSteps (fst (onmessage (audioChunk (lit ''AAAA'') 5 3)
            ((initialVoiceState :: int voice_state)\<lparr>outputAudioContextRef := Some 1\<rparr>)))
          [Deliver (partialOutput (lit ''hi'') 6 atRender), Render])))
      = [\<lparr>startAt = 5, duration = 3\<rparr>, \<lparr>startAt = 8, duration = 2\<rparr>]"
proof -
  let ?st = "(initialVoiceState :: int voice_state)\<lparr>outputAudioContextRef := Some 1\<rparr>"
  have h1: "outputAudioContextRef ?st \<noteq> None" by simp
  have h2: "serverContent (message (audioChunk (lit ''AAAA'') (5::int) 3))
        = Some \<lparr>inputTranscription = None, outputTranscription = None,
                audioData = Some (lit ''AAAA''), turnComplete = False\<rparr>"
    by (simp add: audioChunk_def)
  have h3: "truthy (audioData \<lparr>inputTranscription = None, outputTranscription = None,
                audioData = Some (lit ''AAAA''), turnComplete = False\<rparr>)"
    by (simp add: truthy_def lit_def)
  have h4: "decodedDuration (audioChunk (lit ''AAAA'') (5::int) 3) = Some 3"
    by (simp add: audioChunk_def)
  have h5: "serverContent (message (audioChunk (lit ''BBBB'') (6::int) 2))
        = Some \<lparr>inputTranscription = None, outputTranscription = None,
                audioData = Some (lit ''BBBB''), turnComplete = False\<rparr>"
    by (simp add: audioChunk_def)
  have h6: "truthy (audioData \<lparr>inputTranscription = None, outputTranscription = None,
                audioData = Some (lit ''BBBB''), turnComplete = False\<rparr>)"
    by (simp add: truthy_def lit_def)
  have h7: "decodedDuration (audioChunk (lit ''BBBB'') (6::int) 2) = Some 2"
    by (simp add: audioChunk_def)
  have q1: "noAudioStep (Deliver (partialOutput (lit ''hi'') (6::int) atRender))"
    by (simp add: noAudioStep_def noAudio_def partialOutput_def truthy_def)
  have q2: "noAudioStep (Render :: int step)" by (simp add: noAudioStep_def)
  have h8: "\<forall>x \<in> set [Deliver (partialOutput (lit ''hi'') (6::int) atRender), Render]. noAudioStep x"
    using q1 q2 by simp
  from playback_chunks_do_not_overlap [OF h1 h2 h3 h4 h5 h6 h7 h8]
  have "audioSourcesRef (fst (onmessage (audioChunk (lit ''BBBB'') 6 2)
        (processSteps (fst (onmessage (audioChunk (lit ''AAAA'') 5 3) ?st))
          [Deliver (partialOutput (lit ''hi'') 6 atRender), Render])))
      = [\<lparr>startAt = 5, duration = 3\<rparr>, \<lparr>startAt = 8, duration = 2\<rparr>]"
    by (auto simp: initialVoiceState_def audioChunk_def)
  with h1 h2 h3 h4 h6 h7 q1 q2 show ?thesis by simp
qed

text \<open>
  C7. Called in the idle state (status IDLE, no session, stream, processor or audio
  context, no scheduled source, cursor zero), \<open>stopSession\<close> raises nothing, even in a
  world where every call on a resource would throw, makes no call, and leaves the state as
  it was.
\<close>

theorem stopSession_when_idle:
  assumes "status st = IDLE" and "sessionRef st = None" and "audioStreamRef st = None"
    and "processorRef st = None" and "inputAudioContextRef st = None"
    and "outputAudioContextRef st = None" and "audioSourcesRef st = []"
    and "nextStartTimeRef st = 0"
  shows "stopSession perform (st, w) = (None, st, w)"
  using assms
  by (simp add: stopSession_def andThen_def closeSession_def stopTracks_def
      disconnectProcessor_def closeInputContext_def closeOutputContext_def stopSources_def)

theorem stopSession_when_idle_witness:
  "status (initialVoiceState :: int voice_state) = IDLE
   \<and> sessionRef (initialVoiceState :: int voice_state) = None
   \<and> audioStreamRef (initialVoiceState :: int voice_state) = None
   \<and> processorRef (initialVoiceState :: int voice_state) = None
   \<and> inputAudioContextRef (initialVoiceState :: int voice_state) = None
   \<and> outputAudioContextRef (initialVoiceState :: int voice_state) = None
   \<and> audioSourcesRef (initialVoiceState :: int voice_state) = []
   \<and> nextStartTimeRef (initialVoiceState :: int voice_state) = 0
   \<and> stopSession everyCallThrows (initialVoiceState :: int voice_state, [])
        = (None, initialVoiceState, [])"
proof -
  have h: "status (initialVoiceState :: int voice_state) = IDLE"
    "sessionRef (initialVoiceState :: int voice_state) = None"
    "audioStreamRef (initialVoiceState :: int voice_state) = None"
    "processorRef (initialVoiceState :: int voice_state) = None"
    "inputAudioContextRef (initialVoiceState :: int voice_state) = None"
    "outputAudioContextRef (initialVoiceState :: int voice_state) = None"
    "audioSourcesRef (initialVoiceState :: int voice_state) = []"
    "nextStartTimeRef (initialVoiceState :: int voice_state) = 0"
    by (simp_all add: initialVoiceState_def)
  from stopSession_when_idle [OF h, of everyCallThrows "[]"] h show ?thesis by simp
qed


lemma sealed_inputUpdater:
  assumes "\<forall>t \<in> set (butlast ts). isFinal t"
  shows "\<forall>t \<in> set (butlast (inputUpdater cur ts)). isFinal t"
proof (cases ts rule: rev_cases)
  case Nil
  then show ?thesis by (simp add: inputUpdater_def)
next
  case (snoc ys y)
  with assms have ys: "\<forall>t \<in> set ys. isFinal t" by simp
  show ?thesis
  proof (cases "isFinal y")
    case True
    with snoc ys show ?thesis by (simp add: inputUpdater_def butlast_append)
  next
    case False
    with snoc ys show ?thesis by (simp add: inputUpdater_def)
  qed
qed

lemma sealed_outputUpdater:
  "\<forall>t \<in> set (butlast ts). isFinal t \<Longrightarrow>
   \<forall>t \<in> set (butlast (outputUpdater cur ts)). isFinal t"
  by (cases "ts = []") (simp_all add: outputUpdater_def update_last)

lemma sealed_turnCompleteUpdater:
  "\<forall>t \<in> set (butlast ts). isFinal t \<Longrightarrow>
   \<forall>t \<in> set (butlast (turnCompleteUpdater ts)). isFinal t"
  by (cases "ts = []") (simp_all add: turnCompleteUpdater_def update_last)

lemma sealed_runUpdater:
  assumes "\<forall>t \<in> set (butlast ts). isFinal t"
  shows "\<forall>t \<in> set (butlast (runUpdater st ts u)). isFinal t"
proof (cases u)
  case InputUpdater
  with sealed_inputUpdater[OF assms] show ?thesis unfolding runUpdater_def by simp
next
  case OutputUpdater
  with sealed_outputUpdater[OF assms] show ?thesis unfolding runUpdater_def by simp
next
  case TurnCompleteUpdater
  with sealed_turnCompleteUpdater[OF assms] show ?thesis unfolding runUpdater_def by simp
qed

lemma sealed_foldl:
  "\<forall>t \<in> set (butlast ts). isFinal t \<Longrightarrow>
   \<forall>t \<in> set (butlast (foldl (runUpdater st) ts us)). isFinal t"
proof (induction us arbitrary: ts)
  case Nil
  then show ?case by simp
next
  case (Cons u us)
  from Cons.IH[OF sealed_runUpdater[OF Cons.prems, of st u]] show ?case by simp
qed

lemma sealed_render:
  assumes "\<forall>t \<in> set (butlast (transcriptions st)). isFinal t"
  shows "\<forall>t \<in> set (butlast (transcriptions (render st))). isFinal t"
  using sealed_foldl[OF assms, of st "pendingUpdaters st"] by (simp add: render_def)

lemma sealed_setTranscriptions:
  assumes "\<forall>t \<in> set (butlast (transcriptions st)). isFinal t"
  shows "\<forall>t \<in> set (butlast (transcriptions (setTranscriptions u b st))). isFinal t"
proof (cases b)
  case True
  have "\<forall>t \<in> set (butlast (transcriptions (st\<lparr>pendingUpdaters := pendingUpdaters st @ [u]\<rparr>))). isFinal t"
    using assms by simp
  from sealed_render[OF this] True show ?thesis by (simp add: setTranscriptions_def Let_def)
next
  case False
  with assms show ?thesis by (simp add: setTranscriptions_def Let_def)
qed

lemma sealed_input:
  assumes "\<forall>t \<in> set (butlast (transcriptions st)). isFinal t"
  shows "\<forall>t \<in> set (butlast (transcriptions (onInputTranscription x b st))). isFinal t"
proof -
  have "\<forall>t \<in> set (butlast (transcriptions
      (st\<lparr>currentInputTranscriptionRef := currentInputTranscriptionRef st @ x\<rparr>))). isFinal t"
    using assms by simp
  from sealed_setTranscriptions[OF this] show ?thesis by (simp add: onInputTranscription_def)
qed

lemma sealed_output:
  assumes "\<forall>t \<in> set (butlast (transcriptions st)). isFinal t"
  shows "\<forall>t \<in> set (butlast (transcriptions (onOutputTranscription x b st))). isFinal t"
proof -
  have "\<forall>t \<in> set (butlast (transcriptions
      (st\<lparr>currentOutputTranscriptionRef := currentOutputTranscriptionRef st @ x\<rparr>))). isFinal t"
    using assms by simp
  from sealed_setTranscriptions[OF this] show ?thesis by (simp add: onOutputTranscription_def)
qed

lemma sealed_turnComplete:
  assumes "\<forall>t \<in> set (butlast (transcriptions st)). isFinal t"
  shows "\<forall>t \<in> set (butlast (transcriptions (onTurnComplete b st))). isFinal t"
  using sealed_setTranscriptions[OF assms, of TurnCompleteUpdater b]
  by (simp add: onTurnComplete_def)

lemma scheduleAudio_keeps_transcript:
  "transcriptions (snd (scheduleAudio now d st)) = transcriptions st"
  by (simp add: scheduleAudio_def Let_def split: option.splits)

lemma sealed_onmessage:
  fixes st :: "('t::{linorder,plus}) voice_state"
  assumes "\<forall>t \<in> set (butlast (transcriptions st)). isFinal t"
  shows "\<forall>t \<in> set (butlast (transcriptions (fst (onmessage ev st)))). isFinal t"
proof (cases "serverContent (message ev)")
  case None
  with assms show ?thesis by (simp add: onmessage_def onToolCall_keeps)
next
  case (Some sc)
  define st1 where "st1 = (case inputTranscription sc of
                        None \<Rightarrow> st
                      | Some t \<Rightarrow> onInputTranscription t (runsAtCall ev InputUpdater) st)"
  define st2 where "st2 = (case outputTranscription sc of
                        None \<Rightarrow> st1
                      | Some t \<Rightarrow> onOutputTranscription t (runsAtCall ev OutputUpdater) st1)"
  define st3 where "st3 = (if turnComplete sc
                      then onTurnComplete (runsAtCall ev TurnCompleteUpdater) st2 else st2)"
  have i1: "\<forall>t \<in> set (butlast (transcriptions st1)). isFinal t"
    unfolding st1_def using assms sealed_input by (cases "inputTranscription sc") simp_all
  have i2: "\<forall>t \<in> set (butlast (transcriptions st2)). isFinal t"
    unfolding st2_def using i1 sealed_output by (cases "outputTranscription sc") simp_all
  have i3: "\<forall>t \<in> set (butlast (transcriptions st3)). isFinal t"
    unfolding st3_def using i2 sealed_turnComplete[of st2] by simp
  have res: "transcriptions (fst (onmessage ev st)) = transcriptions st3"
  proof (cases "truthy (audioData sc)")
    case False
    with Some show ?thesis
      unfolding st3_def st2_def st1_def
      by (simp add: onmessage_def Let_def onToolCall_keeps)
  next
    case True
    obtain out st4 where sa: "scheduleAudio (currentTime ev) (decodedDuration ev) st3 = (out, st4)"
      by (cases "scheduleAudio (currentTime ev) (decodedDuration ev) st3")
    with scheduleAudio_keeps_transcript[of "currentTime ev" "decodedDuration ev" st3]
    have k: "transcriptions st4 = transcriptions st3" by simp
    from Some True sa have "transcriptions (fst (onmessage ev st)) = transcriptions st4"
      unfolding st3_def st2_def st1_def
      by (cases out) (simp_all add: onmessage_def Let_def onToolCall_keeps)
    with k show ?thesis by simp
  qed
  with i3 show ?thesis by simp
qed

lemma sealed_stepOf:
  fixes st :: "('t::{linorder,plus}) voice_state"
  assumes "\<forall>t \<in> set (butlast (transcriptions st)). isFinal t"
  shows "\<forall>t \<in> set (butlast (transcriptions (stepOf x st))). isFinal t"
  using sealed_onmessage[OF assms] sealed_render[OF assms]
  by (cases x) (simp_all add: stepOf_def)

lemma sealed_processSteps:
  fixes st :: "('t::{linorder,plus}) voice_state"
  shows "\<forall>t \<in> set (butlast (transcriptions st)). isFinal t \<Longrightarrow>
     \<forall>t \<in> set (butlast (transcriptions (processSteps st xs))). isFinal t"
proof (induction xs arbitrary: st)
  case Nil
  then show ?case by (simp add: processSteps_Nil)
next
  case (Cons x xs)
  from Cons.IH[OF sealed_stepOf[OF Cons.prems, of x]] show ?case
    by (simp add: processSteps_Cons)
qed

lemma openTurns_at_most_one:
  assumes "\<forall>t \<in> set (butlast ts). isFinal t"
  shows "length (openTurns ts) \<le> 1"
proof (cases "ts = []")
  case True
  then show ?thesis by (simp add: openTurns_def)
next
  case False
  then have "ts = butlast ts @ [last ts]" by simp
  then have "openTurns ts = openTurns (butlast ts) @ openTurns [last ts]"
    by (metis filter_append openTurns_def)
  moreover from assms have "openTurns (butlast ts) = []" by (simp add: openTurns_def)
  ultimately show ?thesis by (simp add: openTurns_def)
qed

text \<open>A message with one field, followed by a render, from a state with nothing pending.\<close>

lemma deliver_partialInput_rendered:
  fixes s :: "('t::{linorder,plus}) voice_state"
  assumes "pendingUpdaters s = []"
  shows "processSteps s [Deliver (partialInput x now r), Render] =
     s\<lparr> currentInputTranscriptionRef := currentInputTranscriptionRef s @ x,
        transcriptions := inputUpdater (currentInputTranscriptionRef s @ x) (transcriptions s) \<rparr>"
  using assms
  by (cases "r InputUpdater")
     (simp_all add: processSteps_def stepOf_def onmessage_def partialInput_def truthy_def
        onToolCall_def onInputTranscription_def setTranscriptions_def render_def runUpdater_def
        Let_def)


lemma nothing_pending_after_render:
  fixes st :: "('t::{linorder,plus}) voice_state"
  shows "pendingUpdaters (processSteps st (steps @ [Render])) = []"
  by (simp add: processSteps_append processSteps_def stepOf_def render_def)

lemma inputUpdater_shape:
  "(length (inputUpdater cur ts) = Suc (length ts) \<longrightarrow> ts = [] \<or> isFinal (last ts))
   \<and> (if ts = [] \<or> isFinal (last ts)
       then inputUpdater cur ts = ts @ [\<lparr>user = cur, model = [], isFinal = False\<rparr>]
       else inputUpdater cur ts = butlast ts @ [(last ts)\<lparr>user := cur\<rparr>])"
  by (simp add: inputUpdater_def update_last)

text \<open>
  C9 (as amended). In every state reached from an empty transcript by any sequence of
  deliveries and renders, whenever React runs the updaters, every turn other than the last
  is final, so at most one turn is open, and it is the last one. The updater of a partial
  input adds a turn only when the transcript is empty or its last turn is final; otherwise
  it rewrites the user text of the open last turn. The same holds for a partial input
  delivered to a rendered state and rendered in turn.
\<close>

theorem open_turn_invariant:
  fixes st :: "('t::{linorder,plus}) voice_state"
  assumes "transcriptions st = []"
  shows "(\<forall>t \<in> set (butlast (transcriptions (processSteps st steps))). isFinal t)
    \<and> length (openTurns (transcriptions (processSteps st steps))) \<le> 1
    \<and> (let ts = transcriptions (processSteps st steps)
        in (length (inputUpdater cur ts) = Suc (length ts) \<longrightarrow> ts = [] \<or> isFinal (last ts))
         \<and> (if ts = [] \<or> isFinal (last ts)
             then inputUpdater cur ts = ts @ [\<lparr>user = cur, model = [], isFinal = False\<rparr>]
             else inputUpdater cur ts = butlast ts @ [(last ts)\<lparr>user := cur\<rparr>]))
    \<and> (let s = processSteps st (steps @ [Render]);
            ts = transcriptions s;
            acc = currentInputTranscriptionRef s @ x;
            ts' = transcriptions (processSteps s [Deliver (partialInput x now r), Render])
        in (length ts' = Suc (length ts) \<longrightarrow> ts = [] \<or> isFinal (last ts))
         \<and> (if ts = [] \<or> isFinal (last ts)
             then ts' = ts @ [\<lparr>user = acc, model = [], isFinal = False\<rparr>]
             else ts' = butlast ts @ [(last ts)\<lparr>user := acc\<rparr>]))"
proof -
  from assms have "\<forall>t \<in> set (butlast (transcriptions st)). isFinal t" by simp
  then have inv: "\<forall>t \<in> set (butlast (transcriptions (processSteps st steps))). isFinal t"
    by (rule sealed_processSteps)
  have upd: "let ts = transcriptions (processSteps st steps)
        in (length (inputUpdater cur ts) = Suc (length ts) \<longrightarrow> ts = [] \<or> isFinal (last ts))
         \<and> (if ts = [] \<or> isFinal (last ts)
             then inputUpdater cur ts = ts @ [\<lparr>user = cur, model = [], isFinal = False\<rparr>]
             else inputUpdater cur ts = butlast ts @ [(last ts)\<lparr>user := cur\<rparr>])"
    unfolding Let_def by (rule inputUpdater_shape)
  define s where "s = processSteps st (steps @ [Render])"
  have p: "pendingUpdaters s = []"
    unfolding s_def by (rule nothing_pending_after_render)
  have eq: "transcriptions (processSteps s [Deliver (partialInput x now r), Render])
      = inputUpdater (currentInputTranscriptionRef s @ x) (transcriptions s)"
    by (simp add: deliver_partialInput_rendered[OF p])
  have step: "let s = processSteps st (steps @ [Render]);
            ts = transcriptions s;
            acc = currentInputTranscriptionRef s @ x;
            ts' = transcriptions (processSteps s [Deliver (partialInput x now r), Render])
        in (length ts' = Suc (length ts) \<longrightarrow> ts = [] \<or> isFinal (last ts))
         \<and> (if ts = [] \<or> isFinal (last ts)
             then ts' = ts @ [\<lparr>user = acc, model = [], isFinal = False\<rparr>]
             else ts' = butlast ts @ [(last ts)\<lparr>user := acc\<rparr>])"
    unfolding Let_def s_def[symmetric] eq by (rule inputUpdater_shape)
  show ?thesis
  proof (intro conjI)
    show "\<forall>t \<in> set (butlast (transcriptions (processSteps st steps))). isFinal t"
      by (rule inv)
    show "length (openTurns (transcriptions (processSteps st steps))) \<le> 1"
      by (rule openTurns_at_most_one[OF inv])
  qed (rule upd, rule step)
qed


lemma deliver_turnComplete_rendered:
  fixes s :: "('t::{linorder,plus}) voice_state"
  assumes "pendingUpdaters s = []"
  shows "processSteps s [Deliver (turnCompleteEvent now r), Render] =
     s\<lparr> transcriptions := turnCompleteUpdater (transcriptions s),
        currentInputTranscriptionRef := [], currentOutputTranscriptionRef := [] \<rparr>"
  using assms
  by (cases "r TurnCompleteUpdater")
     (simp_all add: processSteps_def stepOf_def onmessage_def turnCompleteEvent_def truthy_def
        onToolCall_def onTurnComplete_def setTranscriptions_def render_def runUpdater_def
        Let_def)

lemma run_hi_bye:
  "transcriptions (processSteps (initialVoiceState :: int voice_state)
        [Deliver (partialInput (lit ''Hi'') 0 atRender), Render,
         Deliver (turnCompleteEvent 1 atRender), Render,
         Deliver (partialInput (lit ''Bye'') 2 atRender), Render])
      = [\<lparr>user = lit ''Hi'', model = [], isFinal = True\<rparr>,
         \<lparr>user = lit ''Bye'', model = [], isFinal = False\<rparr>]"
  by (simp add: processSteps_def stepOf_def onmessage_def partialInput_def turnCompleteEvent_def
      truthy_def onToolCall_def onInputTranscription_def onTurnComplete_def
      setTranscriptions_def render_def runUpdater_def inputUpdater_def turnCompleteUpdater_def
      atRender_def initialVoiceState_def Let_def)

theorem open_turn_invariant_witness:
  "transcriptions (initialVoiceState :: int voice_state) = []
   \<and> transcriptions (processSteps (initialVoiceState :: int voice_state)
        [Deliver (partialInput (lit ''Hi'') 0 atRender), Render,
         Deliver (turnCompleteEvent 1 atRender), Render,
         Deliver (partialInput (lit ''Bye'') 2 atRender), Render])
      = [\<lparr>user = lit ''Hi'', model = [], isFinal = True\<rparr>,
         \<lparr>user = lit ''Bye'', model = [], isFinal = False\<rparr>]
   \<and> length (openTurns (transcriptions (processSteps (initialVoiceState :: int voice_state)
        [Deliver (partialInput (lit ''Hi'') 0 atRender), Render,
         Deliver (turnCompleteEvent 1 atRender), Render,
         Deliver (partialInput (lit ''Bye'') 2 atRender), Render]))) \<le> 1"
proof -
  have h: "transcriptions (initialVoiceState :: int voice_state) = []"
    by (simp add: initialVoiceState_def)
  from open_turn_invariant [OF h, of "[Deliver (partialInput (lit ''Hi'') 0 atRender), Render,
         Deliver (turnCompleteEvent 1 atRender), Render,
         Deliver (partialInput (lit ''Bye'') 2 atRender), Render]"]
  have "length (openTurns (transcriptions (processSteps (initialVoiceState :: int voice_state)
        [Deliver (partialInput (lit ''Hi'') 0 atRender), Render,
         Deliver (turnCompleteEvent 1 atRender), Render,
         Deliver (partialInput (lit ''Bye'') 2 atRender), Render]))) \<le> 1"
    by blast
  with h run_hi_bye show ?thesis by simp
qed

text \<open>
  C9 as stated fails: the number of open turns is not one in the empty transcript, nor
  after a turn has been completed.
\<close>

theorem exactly_one_open_turn_counterexample:
  "length (openTurns (transcriptions (processSteps (initialVoiceState :: int voice_state) []))) \<noteq> 1
   \<and> transcriptions (processSteps (initialVoiceState :: int voice_state)
        [Deliver (partialInput (lit ''Hi'') 0 atRender), Render,
         Deliver (turnCompleteEvent 1 atRender), Render])
      = [\<lparr>user = lit ''Hi'', model = [], isFinal = True\<rparr>]
   \<and> length (openTurns (transcriptions (processSteps (initialVoiceState :: int voice_state)
        [Deliver (partialInput (lit ''Hi'') 0 atRender), Render,
         Deliver (turnCompleteEvent 1 atRender), Render]))) \<noteq> 1"
  by (simp add: processSteps_def stepOf_def onmessage_def partialInput_def turnCompleteEvent_def
      truthy_def onToolCall_def onInputTranscription_def onTurnComplete_def
      setTranscriptions_def render_def runUpdater_def inputUpdater_def turnCompleteUpdater_def
      atRender_def initialVoiceState_def openTurns_def Let_def)








text \<open>
  The three messages of the transcript example when React renders after each of them: the
  user text is the accumulator as it was, followed by ``Hello''.
\<close>

lemma hello_when_rendered_between:
  fixes st :: "('t::{linorder,plus}) voice_state"
  assumes "transcriptions st = []" and "pendingUpdaters st = []"
  shows "processSteps st
      [Deliver (partialInput (lit ''Hel'') t1 r1), Render,
       Deliver (partialInput (lit ''lo'') t2 r2), Render,
       Deliver (turnCompleteEvent t3 r3), Render]
   = st\<lparr> transcriptions :=
           [\<lparr>user = currentInputTranscriptionRef st @ lit ''Hello'', model = [], isFinal = True\<rparr>],
         currentInputTranscriptionRef := [], currentOutputTranscriptionRef := [] \<rparr>"
  using assms
  by (cases "r1 InputUpdater"; cases "r2 InputUpdater"; cases "r3 TurnCompleteUpdater")
     (simp_all add: processSteps_def stepOf_def onmessage_def partialInput_def
        turnCompleteEvent_def truthy_def onToolCall_def onInputTranscription_def
        onTurnComplete_def setTranscriptions_def render_def runUpdater_def inputUpdater_def
        turnCompleteUpdater_def Let_def lit_def)

text \<open>
  C5. The transcript example holds when React renders between the messages and the input
  accumulator is empty (\<open>hello_when_rendered_between\<close>), but not in general. When the
  three messages partial input ``Hel'', partial input ``lo'' and turn complete are
  delivered before React runs the queue, the updaters read the accumulator after the
  handler of the turn completion has reset it, and the one final turn has an empty user
  text, also when the first updater ran at its call. And in a state with an empty
  transcript whose input accumulator still holds ``X'', as after a stop in the middle of
  a turn and a new start, the user text is ``XHello''.
\<close>

theorem hello_lost_when_batched:
  "transcriptions (processSteps (initialVoiceState :: int voice_state)
      [Deliver (partialInput (lit ''Hel'') 1 atRender),
       Deliver (partialInput (lit ''lo'') 2 atRender),
       Deliver (turnCompleteEvent 3 atRender), Render])
     = [\<lparr>user = [], model = [], isFinal = True\<rparr>]
   \<and> transcriptions (processSteps (initialVoiceState :: int voice_state)
      [Deliver (partialInput (lit ''Hel'') 1 atCall),
       Deliver (partialInput (lit ''lo'') 2 atRender),
       Deliver (turnCompleteEvent 3 atRender), Render])
     = [\<lparr>user = [], model = [], isFinal = True\<rparr>]
   \<and> transcriptions (processSteps
      ((initialVoiceState :: int voice_state)\<lparr>currentInputTranscriptionRef := lit ''X''\<rparr>)
      [Deliver (partialInput (lit ''Hel'') 1 atCall),
       Deliver (partialInput (lit ''lo'') 2 atCall),
       Deliver (turnCompleteEvent 3 atCall)])
     = [\<lparr>user = lit ''XHello'', model = [], isFinal = True\<rparr>]"
  by (simp add: processSteps_def stepOf_def onmessage_def partialInput_def
      turnCompleteEvent_def truthy_def onToolCall_def onInputTranscription_def
      onTurnComplete_def setTranscriptions_def render_def runUpdater_def inputUpdater_def
      turnCompleteUpdater_def atRender_def atCall_def initialVoiceState_def Let_def lit_def)

end
